theory Spec2Isabelle
  imports Main "HOL-Library.Sublist"
begin

section \<open>The report sub-command of xbutil (OO\_Reports.cpp)\<close>

text \<open>
  The sub-command parses its options, resolves a device, and prints either the clock
  report or the preemption telemetry report, as text or as JSON. What the file itself
  does is translated line by line. The code of the repository that it calls but does
  not define (option parsing, device lookup, the two data queries, the table printer,
  the usage text, the error class) is a parameter of the model. The Boost and standard
  library functions it uses (property trees, \<open>write_json\<close>, \<open>format\<close>, \<open>iequals\<close>,
  \<open>to_lower_copy\<close>) are modelled as those libraries implement them.
\<close>

subsection \<open>Characters and strings\<close>

abbreviation squote :: char where "squote \<equiv> CHR 0x27"
abbreviation dquote :: char where "dquote \<equiv> CHR 0x22"
abbreviation backslash :: char where "backslash \<equiv> CHR 0x5C"
abbreviation space :: char where "space \<equiv> CHR 0x20"
abbreviation newline :: char where "newline \<equiv> CHR 0x0A"

text \<open>\<open>std::toupper\<close> and \<open>std::tolower\<close> in the default (classic) locale: only the
  ASCII letters change.\<close>

definition toupper :: "char \<Rightarrow> char" where
  "toupper c = (let n = (of_char c :: nat) in
                if 97 \<le> n \<and> n \<le> 122 then char_of (n - 32) else c)"

definition tolower :: "char \<Rightarrow> char" where
  "tolower c = (let n = (of_char c :: nat) in
                if 65 \<le> n \<and> n \<le> 90 then char_of (n + 32) else c)"

text \<open>\<open>boost::algorithm::to_lower_copy\<close>.\<close>

definition to_lower_copy :: "string \<Rightarrow> string" where
  "to_lower_copy s = map tolower s"

text \<open>\<open>boost::iequals\<close>: walks both strings together, comparing the upper-cased
  characters, and accepts when both end at the same time.\<close>

fun iequals :: "string \<Rightarrow> string \<Rightarrow> bool" where
  "iequals [] [] = True"
| "iequals (a # as) (b # bs) = (if toupper a = toupper b then iequals as bs else False)"
| "iequals _ _ = False"

text \<open>The two directives of the format string on line 45: \<open>%-23s\<close> pads on the right
  up to the width, \<open>%3s\<close> pads on the left; neither cuts a longer argument.\<close>

definition format_left :: "nat \<Rightarrow> string \<Rightarrow> string" where
  "format_left w s = s @ replicate (w - length s) space"

definition format_right :: "nat \<Rightarrow> string \<Rightarrow> string" where
  "format_right w s = replicate (w - length s) space @ s"

subsection \<open>Exceptions\<close>

text \<open>
  The exceptions the file throws or can meet. \<open>Xrt_error\<close> carries the message the
  error was built from (line 169); \<open>Operation_canceled\<close> is
  \<open>xrt_core::error(std::errc::operation_canceled)\<close>. \<open>Ptree_bad_path\<close> and
  \<open>Json_parser_error\<close> come from the property tree library and derive from
  \<open>std::runtime_error\<close>, as does \<open>xrt_core::error\<close>. \<open>Other_exception\<close> stands for
  anything that is not a \<open>std::runtime_error\<close>.
\<close>

datatype exn =
    Operation_canceled
  | Xrt_error string
  | Ptree_bad_path
  | Json_parser_error
  | Runtime_error string
  | Other_exception string

fun is_xrt_error :: "exn \<Rightarrow> bool" where
  "is_xrt_error Operation_canceled = True"
| "is_xrt_error (Xrt_error _) = True"
| "is_xrt_error _ = False"

fun is_runtime_error :: "exn \<Rightarrow> bool" where
  "is_runtime_error (Other_exception _) = False"
| "is_runtime_error _ = True"

subsection \<open>Property trees\<close>

text \<open>A \<open>boost::property_tree::ptree\<close>: a data string and an ordered list of keyed
  children.\<close>

datatype ptree = Ptree (data: string) (children: "(string \<times> ptree) list")

definition empty_tree :: ptree where
  "empty_tree = Ptree [] []"

definition ptree_empty :: "ptree \<Rightarrow> bool" where
  "ptree_empty pt = (children pt = [])"

text \<open>\<open>get_child(key, default)\<close> and \<open>get<std::string>(key)\<close> for a key without a
  path separator, which is all the file uses: the first child of that key. The first
  returns the default when there is none, the second throws.\<close>

definition get_child :: "ptree \<Rightarrow> string \<Rightarrow> ptree \<Rightarrow> ptree" where
  "get_child pt key dflt = (case map_of (children pt) key of Some c \<Rightarrow> c | None \<Rightarrow> dflt)"

definition get_string :: "ptree \<Rightarrow> string \<Rightarrow> exn + string" where
  "get_string pt key =
     (case map_of (children pt) key of Some c \<Rightarrow> Inr (data c) | None \<Rightarrow> Inl Ptree_bad_path)"

subsection \<open>Writing a property tree as JSON (boost::property\_tree::write\_json)\<close>

definition hexdigit :: "nat \<Rightarrow> char" where
  "hexdigit n = ''0123456789ABCDEF'' ! n"

definition escape_char :: "char \<Rightarrow> string" where
  "escape_char ch =
     (let c = (of_char ch :: nat) in
      if c = 0x20 \<or> c = 0x21 \<or> (0x23 \<le> c \<and> c \<le> 0x2E) \<or>
         (0x30 \<le> c \<and> c \<le> 0x5B) \<or> (0x5D \<le> c \<and> c \<le> 0xFF) then [ch]
      else if ch = CHR 0x08 then [backslash, CHR ''b'']
      else if ch = CHR 0x0C then [backslash, CHR ''f'']
      else if ch = newline then [backslash, CHR ''n'']
      else if ch = CHR 0x0D then [backslash, CHR ''r'']
      else if ch = CHR 0x09 then [backslash, CHR ''t'']
      else if ch = CHR ''/'' then [backslash, CHR ''/'']
      else if ch = dquote then [backslash, dquote]
      else if ch = backslash then [backslash, backslash]
      else
        (let u = min c 0xFFFF;
             d1 = u div 4096; u1 = u - d1 * 4096;
             d2 = u1 div 256; u2 = u1 - d2 * 256;
             d3 = u2 div 16; u3 = u2 - d3 * 16;
             d4 = u3
         in [backslash, CHR ''u'', hexdigit d1, hexdigit d2, hexdigit d3, hexdigit d4]))"

definition create_escapes :: "string \<Rightarrow> string" where
  "create_escapes s = concat (map escape_char s)"

text \<open>\<open>verify_json\<close>: the root has no data, and no node has both data and children.\<close>

fun verify_json :: "ptree \<Rightarrow> nat \<Rightarrow> bool" where
  "verify_json (Ptree d cs) depth =
     (if depth = 0 \<and> d \<noteq> [] then False
      else if d \<noteq> [] \<and> cs \<noteq> [] then False
      else list_all (\<lambda>kc. verify_json (snd kc) (depth + 1)) cs)"

text \<open>\<open>write_json_helper\<close>: below the root a node without children is a string, a node
  all of whose keys are empty is an array, and every other node (the root always) is an
  object. The two loops over the children are the two item functions; \<open>indent\<close>
  counts levels of four spaces.\<close>

fun write_json_helper :: "ptree \<Rightarrow> nat \<Rightarrow> bool \<Rightarrow> string"
  and write_array_items :: "(string \<times> ptree) list \<Rightarrow> nat \<Rightarrow> bool \<Rightarrow> string"
  and write_object_items :: "(string \<times> ptree) list \<Rightarrow> nat \<Rightarrow> bool \<Rightarrow> string"
where
  "write_json_helper (Ptree d cs) indent pretty =
     (if indent > 0 \<and> cs = [] then
        [dquote] @ create_escapes d @ [dquote]
      else if indent > 0 \<and> length (filter (\<lambda>kc. fst kc = []) cs) = length cs then
        ''['' @ (if pretty then [newline] else []) @
        write_array_items cs indent pretty @
        (if pretty then replicate (4 * indent) space else []) @ '']''
      else
        ''{'' @ (if pretty then [newline] else []) @
        write_object_items cs indent pretty @
        (if pretty then replicate (4 * indent) space else []) @ ''}'')"
| "write_array_items [] indent pretty = []"
| "write_array_items ((k, c) # rest) indent pretty =
     (if pretty then replicate (4 * (indent + 1)) space else []) @
     write_json_helper c (indent + 1) pretty @
     (if rest \<noteq> [] then '','' else []) @
     (if pretty then [newline] else []) @
     write_array_items rest indent pretty"
| "write_object_items [] indent pretty = []"
| "write_object_items ((k, c) # rest) indent pretty =
     (if pretty then replicate (4 * (indent + 1)) space else []) @
     [dquote] @ create_escapes k @ [dquote] @ '':'' @
     (if pretty then [space] else []) @
     write_json_helper c (indent + 1) pretty @
     (if rest \<noteq> [] then '','' else []) @
     (if pretty then [newline] else []) @
     write_object_items rest indent pretty"

text \<open>\<open>write_json(stream, pt, pretty)\<close>: the text sent to the stream, or the exception
  thrown before anything is sent.\<close>

definition write_json :: "ptree \<Rightarrow> bool \<Rightarrow> exn + string" where
  "write_json pt pretty =
     (if \<not> verify_json pt 0 then Inl Json_parser_error
      else Inr (write_json_helper pt 0 pretty @ [newline]))"

subsection \<open>What the file calls\<close>

text \<open>A device handle, named by the identifier it was looked up with.\<close>

datatype device = Device string

text \<open>The option values \<open>m_device\<close>, \<open>m_action\<close>, \<open>m_help\<close> and \<open>m_json\<close> that
  option parsing fills in.\<close>

record members =
  m_device :: string
  m_action :: string
  m_help :: bool
  m_json :: bool

text \<open>Modelled from the spec: \<open>Table2D\<close> (tools/common/Table2D.h) is not part of the
  file. A table is kept as what the file gives it: the header row it is built with and
  the entries in the order \<open>addEntry\<close> received them. How it is laid out as text is
  the parameter \<open>toString\<close> below.\<close>

datatype justification = left | right

record table2d =
  headers :: "(string \<times> justification) list"
  entries :: "string list list"

definition Table2D :: "(string \<times> justification) list \<Rightarrow> table2d" where
  "Table2D hs = \<lparr>headers = hs, entries = []\<rparr>"

definition addEntry :: "table2d \<Rightarrow> string list \<Rightarrow> table2d" where
  "addEntry t row = t\<lparr>entries := entries t @ [row]\<rparr>"

text \<open>
  The collaborators: \<open>process_arguments\<close> (option parsing: the option values it leaves
  in the members, or the exception it throws), \<open>XBUtilities::get_device\<close>,
  \<open>xrt_core::platform::get_clock_info\<close>,
  \<open>xrt_core::telemetry::preemption_telemetry_info\<close>, \<open>Table2D::toString\<close>, and
  \<open>what()\<close> of an exception. \<open>XBUtilities::verbose\<close> and \<open>printHelp\<close> only
  print; a call of either is an event of the run.
\<close>

record env =
  process_arguments :: "string list \<Rightarrow> exn + members"
  get_device :: "string \<Rightarrow> bool \<Rightarrow> exn + device"
  get_clock_info :: "device \<Rightarrow> exn + ptree"
  preemption_telemetry_info :: "device \<Rightarrow> exn + ptree"
  toString :: "table2d \<Rightarrow> string \<Rightarrow> string"
  what :: "exn \<Rightarrow> string"

text \<open>What a run does, in order: the calls it makes to the collaborators and the text
  it writes itself to \<open>std::cout\<close> and \<open>std::cerr\<close>. A run ends by returning or by
  throwing.\<close>

datatype event =
    Verbose string
  | PrintHelp
  | Process_arguments "string list"
  | Get_device string bool
  | Get_clock_info device
  | Preemption_telemetry_info device
  | ToString table2d string
  | Cout string
  | Cerr string

type_synonym 'a result = "event list \<times> (exn + 'a)"

text \<open>The text a run wrote to standard output and to standard error.\<close>

fun stdout_of :: "event list \<Rightarrow> string" where
  "stdout_of [] = []"
| "stdout_of (Cout s # es) = s @ stdout_of es"
| "stdout_of (_ # es) = stdout_of es"

fun stderr_of :: "event list \<Rightarrow> string list" where
  "stderr_of [] = []"
| "stderr_of (Cerr s # es) = s # stderr_of es"
| "stderr_of (_ # es) = stderr_of es"

subsection \<open>print\_clock\_info (lines 23 to 48)\<close>

text \<open>The loop of lines 43 to 46: one formatted line per entry appended to \<open>ss\<close>.
  Which of the two fields is read first is not fixed by the language; a missing field
  throws either way.\<close>

fun clock_lines :: "string \<Rightarrow> (string \<times> ptree) list \<Rightarrow> exn + string" where
  "clock_lines ss [] = Inr ss"
| "clock_lines ss (kc # rest) =
     (case get_string (snd kc) ''id'' of
        Inl e \<Rightarrow> Inl e
      | Inr ident \<Rightarrow>
          (case get_string (snd kc) ''freq_mhz'' of
             Inl e \<Rightarrow> Inl e
           | Inr freq \<Rightarrow>
               clock_lines
                 (ss @ ''  '' @ format_left 23 ident @ '': '' @ format_right 3 freq @
                  '' MHz'' @ [newline])
                 rest))"

definition print_clock_info :: "env \<Rightarrow> device \<Rightarrow> bool \<Rightarrow> unit result" where
  "print_clock_info env dev is_json =
     (case get_clock_info env dev of
        Inl e \<Rightarrow> ([Get_clock_info dev], Inl e)
      | Inr clocks \<Rightarrow>
          (let pt_clock_array = get_child clocks ''clocks'' empty_tree;
               ss = ''Clocks'' @ [newline]
           in if ptree_empty pt_clock_array then
                ([Get_clock_info dev,
                  Cout (ss @ ''  No clock information available'' @ [newline, newline])],
                 Inr ())
              else if is_json then
                (case write_json clocks True of
                   Inl e \<Rightarrow> ([Get_clock_info dev], Inl e)
                 | Inr doc \<Rightarrow> ([Get_clock_info dev, Cout doc], Inr ()))
              else
                (case clock_lines ss (children pt_clock_array) of
                   Inl e \<Rightarrow> ([Get_clock_info dev], Inl e)
                 | Inr lines \<Rightarrow> ([Get_clock_info dev, Cout lines], Inr ()))))"

subsection \<open>print\_preemption\_telemetry (lines 50 to 95)\<close>

definition preempt_headers :: "(string \<times> justification) list" where
  "preempt_headers =
     [(''User Task'', left), (''Ctx ID'', left), (''Set Hints'', left),
      (''Unset Hints'', left), (''Checkpoint Events'', left),
      (''Frame Boundary Events'', left)]"

text \<open>The six fields of one context, read left to right (lines 81 to 88).\<close>

fun get_strings :: "ptree \<Rightarrow> string list \<Rightarrow> exn + string list" where
  "get_strings pt [] = Inr []"
| "get_strings pt (key # keys) =
     (case get_string pt key of
        Inl e \<Rightarrow> Inl e
      | Inr v \<Rightarrow> (case get_strings pt keys of Inl e \<Rightarrow> Inl e | Inr vs \<Rightarrow> Inr (v # vs)))"

definition rtos_data :: "ptree \<Rightarrow> exn + string list" where
  "rtos_data user_task =
     get_strings user_task
       [''user_task'', ''slot_index'', ''preemption_flag_set'', ''preemption_flag_unset'',
        ''preemption_checkpoint_event'', ''preemption_frame_boundary_events'']"

text \<open>The loop of lines 80 to 90.\<close>

fun add_entries :: "table2d \<Rightarrow> (string \<times> ptree) list \<Rightarrow> exn + table2d" where
  "add_entries t [] = Inr t"
| "add_entries t ((name, user_task) # rest) =
     (case rtos_data user_task of
        Inl e \<Rightarrow> Inl e
      | Inr row \<Rightarrow> add_entries (addEntry t row) rest)"

definition print_preemption_telemetry :: "env \<Rightarrow> device \<Rightarrow> bool \<Rightarrow> unit result" where
  "print_preemption_telemetry env dev is_json =
     (case preemption_telemetry_info env dev of
        Inl e \<Rightarrow> ([Preemption_telemetry_info dev], Inl e)
      | Inr telemetry_pt \<Rightarrow>
          (let telemetry_array = get_child telemetry_pt ''telemetry'' empty_tree;
               ss = ''Premption Telemetry Data'' @ [newline]
           in if ptree_empty telemetry_array then
                ([Preemption_telemetry_info dev,
                  Cout (ss @ '' No hardware contexts running on device'' @ [newline, newline])],
                 Inr ())
              else if is_json then
                (case write_json telemetry_pt True of
                   Inl e \<Rightarrow> ([Preemption_telemetry_info dev], Inl e)
                 | Inr doc \<Rightarrow> ([Preemption_telemetry_info dev, Cout doc], Inr ()))
              else
                (case add_entries (Table2D preempt_headers) (children telemetry_array) of
                   Inl e \<Rightarrow> ([Preemption_telemetry_info dev], Inl e)
                 | Inr preemption_table \<Rightarrow>
                     ([Preemption_telemetry_info dev,
                       ToString preemption_table ''  '',
                       Cout (ss @ toString env preemption_table ''  '' @ [newline])],
                      Inr ()))))"

subsection \<open>OO\_Reports::execute (lines 122 to 177)\<close>

text \<open>The handler of lines 172 to 176: an \<open>xrt_core::error\<close> thrown in the guarded
  block is reported, usage is printed and the run is cancelled; any other exception
  passes through.\<close>

definition catch_xrt_error :: "env \<Rightarrow> unit result \<Rightarrow> unit result" where
  "catch_xrt_error env body =
     (case snd body of
        Inr u \<Rightarrow> body
      | Inl e \<Rightarrow>
          if is_xrt_error e then
            (fst body @ [Cerr ([newline] @ ''ERROR: '' @ what env e @ [newline]), PrintHelp],
             Inl Operation_canceled)
          else body)"

text \<open>Lines 161 to 176: the report is chosen by name inside the guarded block.\<close>

definition execute_dispatch :: "env \<Rightarrow> members \<Rightarrow> device \<Rightarrow> unit result" where
  "execute_dispatch env m dev =
     catch_xrt_error env
       (if iequals (m_action m) ''clocks'' then print_clock_info env dev (m_json m)
        else if iequals (m_action m) ''preemption'' then
          print_preemption_telemetry env dev (m_json m)
        else
          ([], Inl (Xrt_error (''Invalid report value: '' @ [squote] @ m_action m @
                               [squote, newline]))))"

text \<open>Lines 141 to 176: what happens once the options are parsed.\<close>

definition execute_parsed :: "env \<Rightarrow> members \<Rightarrow> unit result" where
  "execute_parsed env m =
     (if m_help m then ([PrintHelp], Inr ())
      else if m_action m = [] then
        ([Cerr (''ERROR: the required argument for option '--report' is missing'' @ [newline]),
          PrintHelp],
         Inl Operation_canceled)
      else
        (case get_device env (to_lower_copy (m_device m)) True of
           Inl e \<Rightarrow>
             if is_runtime_error e then
               ([Get_device (to_lower_copy (m_device m)) True,
                 Cerr (''ERROR: '' @ what env e @ [newline])],
                Inl Operation_canceled)
             else ([Get_device (to_lower_copy (m_device m)) True], Inl e)
         | Inr dev \<Rightarrow>
             (let r = execute_dispatch env m dev
              in (Get_device (to_lower_copy (m_device m)) True # fst r, snd r))))"

text \<open>The whole of \<open>execute\<close>: the options are logged (lines 125 to 129), \<open>--help\<close>
  among them is honoured before anything is parsed, then the options are parsed.\<close>

definition verbose_options :: "string list \<Rightarrow> event list" where
  "verbose_options options =
     [Verbose ''SubCommand option: report'', Verbose ''Option(s):''] @
     map (\<lambda>aString. Verbose ('' '' @ aString)) options"

definition execute :: "env \<Rightarrow> string list \<Rightarrow> unit result" where
  "execute env options =
     (if ''--help'' \<in> set options then (verbose_options options @ [PrintHelp], Inr ())
      else
        (case process_arguments env options of
           Inl e \<Rightarrow> (verbose_options options @ [Process_arguments options], Inl e)
         | Inr m \<Rightarrow>
             (let r = execute_parsed env m
              in (verbose_options options @ [Process_arguments options] @ fst r, snd r))))"

section \<open>Notions used to state the properties\<close>

subsection \<open>Well-formed query results\<close>

definition has_field :: "ptree \<Rightarrow> string \<Rightarrow> bool" where
  "has_field pt key = (key \<in> fst ` set (children pt))"

definition field :: "ptree \<Rightarrow> string \<Rightarrow> string" where
  "field pt key = (case map_of (children pt) key of Some c \<Rightarrow> data c | None \<Rightarrow> [])"

text \<open>The clock entries of a fetched clock structure, and the contexts of a fetched
  telemetry structure.\<close>

definition clock_entries :: "ptree \<Rightarrow> (string \<times> ptree) list" where
  "clock_entries clocks = children (get_child clocks ''clocks'' empty_tree)"

definition contexts :: "ptree \<Rightarrow> (string \<times> ptree) list" where
  "contexts telemetry_pt = children (get_child telemetry_pt ''telemetry'' empty_tree)"

definition is_clock_entry :: "ptree \<Rightarrow> bool" where
  "is_clock_entry pt = (has_field pt ''id'' \<and> has_field pt ''freq_mhz'')"

definition is_context :: "ptree \<Rightarrow> bool" where
  "is_context pt =
     (has_field pt ''user_task'' \<and> has_field pt ''slot_index'' \<and>
      has_field pt ''preemption_flag_set'' \<and> has_field pt ''preemption_flag_unset'' \<and>
      has_field pt ''preemption_checkpoint_event'' \<and>
      has_field pt ''preemption_frame_boundary_events'')"

text \<open>The line of the clock table for one entry, and the table row for one context.\<close>

definition clock_line :: "ptree \<Rightarrow> string" where
  "clock_line pt_clock =
     ''  '' @ format_left 23 (field pt_clock ''id'') @ '': '' @
     format_right 3 (field pt_clock ''freq_mhz'') @ '' MHz'' @ [newline]"

definition context_row :: "ptree \<Rightarrow> string list" where
  "context_row user_task =
     [field user_task ''user_task'', field user_task ''slot_index'',
      field user_task ''preemption_flag_set'', field user_task ''preemption_flag_unset'',
      field user_task ''preemption_checkpoint_event'',
      field user_task ''preemption_frame_boundary_events'']"

text \<open>A letter-casing of a lower-case name: a string that lower-cases to it.\<close>

definition casing_of :: "string \<Rightarrow> string \<Rightarrow> bool" where
  "casing_of name s = (to_lower_copy s = name)"

text \<open>The diagnostic for a report name that is not supported: what line 173 writes for
  the error raised on line 169.\<close>

definition invalid_report_diagnostic :: "env \<Rightarrow> string \<Rightarrow> string" where
  "invalid_report_diagnostic env name =
     [newline] @ ''ERROR: '' @
     what env (Xrt_error (''Invalid report value: '' @ [squote] @ name @ [squote, newline])) @
     [newline]"

subsection \<open>JSON documents\<close>

text \<open>A JSON value, the value a property tree stands for at a given depth, and the
  pretty-printed text of a value (four spaces per level, one element or member per
  line).\<close>

datatype json = JString string | JArray "json list" | JObject "(string \<times> json) list"

fun json_of :: "ptree \<Rightarrow> nat \<Rightarrow> json" where
  "json_of (Ptree d cs) depth =
     (if depth > 0 \<and> cs = [] then JString d
      else if depth > 0 \<and> list_all (\<lambda>kc. fst kc = []) cs then
        JArray (map (\<lambda>kc. json_of (snd kc) (depth + 1)) cs)
      else JObject (map (\<lambda>kc. (fst kc, json_of (snd kc) (depth + 1))) cs))"

definition json_string :: "string \<Rightarrow> string" where
  "json_string s = [dquote] @ create_escapes s @ [dquote]"

definition indentation :: "nat \<Rightarrow> string" where
  "indentation depth = replicate (4 * depth) space"

fun pretty_json :: "json \<Rightarrow> nat \<Rightarrow> string"
  and pretty_elements :: "json list \<Rightarrow> nat \<Rightarrow> string"
  and pretty_members :: "(string \<times> json) list \<Rightarrow> nat \<Rightarrow> string"
where
  "pretty_json (JString s) depth = json_string s"
| "pretty_json (JArray xs) depth =
     ''['' @ [newline] @ pretty_elements xs (depth + 1) @ indentation depth @ '']''"
| "pretty_json (JObject ms) depth =
     ''{'' @ [newline] @ pretty_members ms (depth + 1) @ indentation depth @ ''}''"
| "pretty_elements [] depth = []"
| "pretty_elements (x # xs) depth =
     indentation depth @ pretty_json x depth @ (if xs = [] then [] else '','') @ [newline] @
     pretty_elements xs depth"
| "pretty_members [] depth = []"
| "pretty_members ((k, x) # ms) depth =
     indentation depth @ json_string k @ '': '' @ pretty_json x depth @
     (if ms = [] then [] else '','') @ [newline] @ pretty_members ms depth"

subsection \<open>Reading JSON text\<close>

text \<open>
  A reader of JSON text for the values above, written from the grammar of JSON and not
  from the writer: white space between tokens, strings with the escapes of the grammar
  (a quote or a backslash stands for itself only after a backslash, control characters
  are refused, \<open>\u\<close> escapes are read up to code point 127), arrays and objects with
  comma-separated elements and members. It reads no numbers or literals, which the
  writer never produces. The reader is a function: a text it accepts stands for one
  value only. The first argument of \<open>read_value\<close> bounds the nesting it follows; the
  length of the text is always enough.
\<close>

definition is_ws :: "char \<Rightarrow> bool" where
  "is_ws c = (c = space \<or> c = newline \<or> c = CHR 0x09 \<or> c = CHR 0x0D)"

fun skip_ws :: "string \<Rightarrow> string" where
  "skip_ws [] = []"
| "skip_ws (c # cs) = (if is_ws c then skip_ws cs else c # cs)"

definition hex_value :: "char \<Rightarrow> nat option" where
  "hex_value c =
     (let n = (of_char c :: nat) in
      if 48 \<le> n \<and> n \<le> 57 then Some (n - 48)
      else if 65 \<le> n \<and> n \<le> 70 then Some (n - 55)
      else if 97 \<le> n \<and> n \<le> 102 then Some (n - 87)
      else None)"

definition unescape :: "char \<Rightarrow> char option" where
  "unescape e =
     (if e = CHR ''b'' then Some (CHR 0x08)
      else if e = CHR ''f'' then Some (CHR 0x0C)
      else if e = CHR ''n'' then Some newline
      else if e = CHR ''r'' then Some (CHR 0x0D)
      else if e = CHR ''t'' then Some (CHR 0x09)
      else if e = CHR ''/'' then Some (CHR ''/'')
      else if e = dquote then Some dquote
      else if e = backslash then Some backslash
      else None)"

definition code_point :: "char \<Rightarrow> char \<Rightarrow> char \<Rightarrow> char \<Rightarrow> nat option" where
  "code_point h1 h2 h3 h4 =
     (case (hex_value h1, hex_value h2, hex_value h3, hex_value h4) of
        (Some a, Some b, Some c, Some d) \<Rightarrow> Some (((a * 16 + b) * 16 + c) * 16 + d)
      | _ \<Rightarrow> None)"

fun read_chars :: "string \<Rightarrow> (string \<times> string) option" where
  "read_chars [] = None"
| "read_chars (c # cs) =
     (if c = dquote then Some ([], cs)
      else if c = backslash then
        (case cs of
           [] \<Rightarrow> None
         | e # r \<Rightarrow>
             if e = CHR ''u'' then
               (case r of
                  h1 # h2 # h3 # h4 # r' \<Rightarrow>
                    (case code_point h1 h2 h3 h4 of
                       None \<Rightarrow> None
                     | Some n \<Rightarrow>
                         if n < 128 then
                           (case read_chars r' of
                              None \<Rightarrow> None
                            | Some (s, t) \<Rightarrow> Some (char_of n # s, t))
                         else None)
                | _ \<Rightarrow> None)
             else
               (case unescape e of
                  None \<Rightarrow> None
                | Some ch \<Rightarrow>
                    (case read_chars r of
                       None \<Rightarrow> None
                     | Some (s, t) \<Rightarrow> Some (ch # s, t))))
      else if (of_char c :: nat) < 0x20 then None
      else
        (case read_chars cs of
           None \<Rightarrow> None
         | Some (s, t) \<Rightarrow> Some (c # s, t)))"

fun read_value :: "nat \<Rightarrow> string \<Rightarrow> (json \<times> string) option"
  and read_elements :: "nat \<Rightarrow> string \<Rightarrow> (json list \<times> string) option"
  and read_members :: "nat \<Rightarrow> string \<Rightarrow> ((string \<times> json) list \<times> string) option"
where
  "read_value 0 s = None"
| "read_value (Suc n) s =
     (case skip_ws s of
        [] \<Rightarrow> None
      | c # cs \<Rightarrow>
          if c = dquote then
            (case read_chars cs of None \<Rightarrow> None | Some (t, r) \<Rightarrow> Some (JString t, r))
          else if c = CHR ''['' then
            (case skip_ws cs of
               [] \<Rightarrow> None
             | c' # r \<Rightarrow>
                 if c' = CHR '']'' then Some (JArray [], r)
                 else
                   (case read_elements n cs of
                      None \<Rightarrow> None
                    | Some (xs, r') \<Rightarrow> Some (JArray xs, r')))
          else if c = CHR ''{'' then
            (case skip_ws cs of
               [] \<Rightarrow> None
             | c' # r \<Rightarrow>
                 if c' = CHR ''}'' then Some (JObject [], r)
                 else
                   (case read_members n cs of
                      None \<Rightarrow> None
                    | Some (ms, r') \<Rightarrow> Some (JObject ms, r')))
          else None)"
| "read_elements 0 s = None"
| "read_elements (Suc n) s =
     (case read_value n s of
        None \<Rightarrow> None
      | Some (x, r) \<Rightarrow>
          (case skip_ws r of
             [] \<Rightarrow> None
           | c # r' \<Rightarrow>
               if c = CHR '','' then
                 (case read_elements n r' of
                    None \<Rightarrow> None
                  | Some (xs, r'') \<Rightarrow> Some (x # xs, r''))
               else if c = CHR '']'' then Some ([x], r')
               else None))"
| "read_members 0 s = None"
| "read_members (Suc n) s =
     (case skip_ws s of
        [] \<Rightarrow> None
      | c # cs \<Rightarrow>
          if c = dquote then
            (case read_chars cs of
               None \<Rightarrow> None
             | Some (k, r) \<Rightarrow>
                 (case skip_ws r of
                    [] \<Rightarrow> None
                  | c2 # r2 \<Rightarrow>
                      if c2 = CHR '':'' then
                        (case read_value n r2 of
                           None \<Rightarrow> None
                         | Some (x, r3) \<Rightarrow>
                             (case skip_ws r3 of
                                [] \<Rightarrow> None
                              | c3 # r4 \<Rightarrow>
                                  if c3 = CHR '','' then
                                    (case read_members n r4 of
                                       None \<Rightarrow> None
                                     | Some (ms, r5) \<Rightarrow> Some ((k, x) # ms, r5))
                                  else if c3 = CHR ''}'' then Some ([(k, x)], r4)
                                  else None))
                      else None))
          else None)"

text \<open>A document is one value followed by white space only.\<close>

definition read_json :: "string \<Rightarrow> json option" where
  "read_json doc =
     (case read_value (length doc) doc of
        None \<Rightarrow> None
      | Some (x, r) \<Rightarrow> if skip_ws r = [] then Some x else None)"

text \<open>The length of the array that the member "clocks" of a JSON document holds.\<close>

definition clocks_array_length :: "string \<Rightarrow> nat option" where
  "clocks_array_length doc =
     (case read_json doc of
        Some (JObject ms) \<Rightarrow>
          (case map_of ms ''clocks'' of Some (JArray xs) \<Rightarrow> Some (length xs) | _ \<Rightarrow> None)
      | _ \<Rightarrow> None)"

subsection \<open>A sample environment\<close>

text \<open>Stand-ins for the collaborators, used in the examples below: two clocks, two
  hardware contexts, one device, a small option reader and a plain table layout.\<close>

definition sample_clocks :: ptree where
  "sample_clocks =
     Ptree [] [(''clocks'', Ptree []
       [([], Ptree [] [(''id'', Ptree ''DATA_CLK'' []), (''description'', Ptree ''Data'' []),
                       (''freq_mhz'', Ptree ''300'' [])]),
        ([], Ptree [] [(''id'', Ptree ''KERNEL_CLK'' []),
                       (''description'', Ptree ''Kernel'' []),
                       (''freq_mhz'', Ptree ''1000'' [])])])]"

definition no_clocks :: ptree where
  "no_clocks = Ptree [] [(''clocks'', Ptree [] [])]"

text \<open>One clock whose id holds a quote, braces and a comma: unescaped, it would read as
  the end of one array element and the start of another.\<close>

definition tricky_clocks :: ptree where
  "tricky_clocks =
     Ptree [] [(''clocks'', Ptree []
       [([], Ptree []
          [(''id'',
            Ptree ([CHR ''a'', dquote] @ ''},{'' @ [dquote] @ ''id'' @ [dquote] @ '':'' @
                   [dquote] @ ''b'') []),
           (''freq_mhz'', Ptree ''300'' [])])])]"

definition sample_context :: "string \<Rightarrow> string \<Rightarrow> ptree" where
  "sample_context task slot =
     Ptree [] [(''user_task'', Ptree task []), (''slot_index'', Ptree slot []),
               (''preemption_flag_set'', Ptree ''4'' []),
               (''preemption_flag_unset'', Ptree ''3'' []),
               (''preemption_checkpoint_event'', Ptree ''2'' []),
               (''preemption_frame_boundary_events'', Ptree ''1'' [])]"

definition sample_telemetry :: ptree where
  "sample_telemetry =
     Ptree [] [(''telemetry'', Ptree []
       [([], sample_context ''0'' ''7''), ([], sample_context ''1'' ''9'')])]"

definition no_contexts :: ptree where
  "no_contexts = Ptree [] [(''telemetry'', Ptree [] [])]"

fun sample_process_arguments :: "members \<Rightarrow> string list \<Rightarrow> exn + members" where
  "sample_process_arguments m [] = Inr m"
| "sample_process_arguments m [a] =
     (if a = ''--json'' then Inr (m\<lparr>m_json := True\<rparr>)
      else if a = ''--device'' \<or> a = ''-d'' then Inl Operation_canceled
      else Inr (m\<lparr>m_action := a\<rparr>))"
| "sample_process_arguments m (a # b # rest) =
     (if a = ''--json'' then sample_process_arguments (m\<lparr>m_json := True\<rparr>) (b # rest)
      else if a = ''--device'' \<or> a = ''-d'' then
        sample_process_arguments (m\<lparr>m_device := b\<rparr>) rest
      else sample_process_arguments (m\<lparr>m_action := a\<rparr>) (b # rest))"

definition sample_toString :: "table2d \<Rightarrow> string \<Rightarrow> string" where
  "sample_toString t margin =
     concat (map (\<lambda>row. margin @ concat (map (\<lambda>cell. cell @ ''|'') row) @ [newline])
                 (map fst (headers t) # entries t))"

fun sample_what :: "exn \<Rightarrow> string" where
  "sample_what Operation_canceled = ''Operation canceled''"
| "sample_what (Xrt_error msg) = msg"
| "sample_what Ptree_bad_path = ''No such node''"
| "sample_what Json_parser_error = ''ptree contains data that cannot be represented in JSON format''"
| "sample_what (Runtime_error msg) = msg"
| "sample_what (Other_exception msg) = msg"

definition sample_env :: env where
  "sample_env =
     \<lparr>process_arguments =
        sample_process_arguments
          \<lparr>m_device = [], m_action = [], m_help = False, m_json = False\<rparr>,
      get_device =
        (\<lambda>bdf in_user_domain.
           if bdf = [] \<or> bdf = ''0000:d8:00.0'' then Inr (Device ''0000:d8:00.0'')
           else Inl (Runtime_error ''Specified device not found'')),
      get_clock_info = (\<lambda>dev. Inr sample_clocks),
      preemption_telemetry_info = (\<lambda>dev. Inr sample_telemetry),
      toString = sample_toString,
      what = sample_what\<rparr>"

text \<open>The same environment with a device that reports no clocks and runs no hardware
  context.\<close>

definition idle_env :: env where
  "idle_env =
     sample_env\<lparr>get_clock_info := (\<lambda>dev. Inr no_clocks),
                preemption_telemetry_info := (\<lambda>dev. Inr no_contexts)\<rparr>"

section \<open>Auxiliary facts\<close>

subsection \<open>Letter case\<close>

lemma tolower_toupper: "tolower (toupper c) = tolower c"
  by (auto simp add: tolower_def toupper_def Let_def)

lemma toupper_tolower: "toupper (tolower c) = toupper c"
  by (auto simp add: tolower_def toupper_def Let_def)

lemma iequals_iff: "iequals a b \<longleftrightarrow> map toupper a = map toupper b"
  by (induction a b rule: iequals.induct) auto

lemma map_toupper_iff: "map toupper a = map toupper b \<longleftrightarrow> map tolower a = map tolower b"
proof
  assume "map toupper a = map toupper b"
  then have "map tolower (map toupper a) = map tolower (map toupper b)" by simp
  then show "map tolower a = map tolower b" by (simp add: tolower_toupper comp_def)
next
  assume "map tolower a = map tolower b"
  then have "map toupper (map tolower a) = map toupper (map tolower b)" by simp
  then show "map toupper a = map toupper b" by (simp add: toupper_tolower comp_def)
qed

lemma iequals_to_lower: "iequals a b \<longleftrightarrow> to_lower_copy a = to_lower_copy b"
  by (simp add: iequals_iff map_toupper_iff to_lower_copy_def)

lemma lower_clocks: "to_lower_copy ''clocks'' = ''clocks''"
  by code_simp

lemma lower_preemption: "to_lower_copy ''preemption'' = ''preemption''"
  by code_simp

lemma iequals_clocks: "iequals s ''clocks'' \<longleftrightarrow> casing_of ''clocks'' s"
  by (simp only: iequals_to_lower lower_clocks casing_of_def)

lemma iequals_preemption: "iequals s ''preemption'' \<longleftrightarrow> casing_of ''preemption'' s"
  by (simp only: iequals_to_lower lower_preemption casing_of_def)

lemma casing_disjoint: "casing_of ''preemption'' s \<Longrightarrow> \<not> casing_of ''clocks'' s"
  by (auto simp: casing_of_def)


lemma get_string_has_field:
  "has_field pt key \<Longrightarrow> get_string pt key = Inr (field pt key)"
  by (auto simp: has_field_def get_string_def field_def map_of_eq_None_iff split: option.splits)

lemma clock_lines_ok:
  "list_all (\<lambda>kc. is_clock_entry (snd kc)) es \<Longrightarrow>
   clock_lines ss es = Inr (ss @ concat (map (\<lambda>kc. clock_line (snd kc)) es))"
  by (induction es arbitrary: ss)
     (simp_all add: get_string_has_field clock_line_def is_clock_entry_def)

lemma rtos_data_ok: "is_context pt \<Longrightarrow> rtos_data pt = Inr (context_row pt)"
  by (simp add: rtos_data_def is_context_def context_row_def get_string_has_field)

lemma add_entries_ok:
  "list_all (\<lambda>kc. is_context (snd kc)) es \<Longrightarrow>
   add_entries t es = Inr (t\<lparr>entries := entries t @ map (\<lambda>kc. context_row (snd kc)) es\<rparr>)"
proof (induction es arbitrary: t)
  case Nil
  then show ?case by simp
next
  case (Cons kc es)
  obtain name user_task where kc: "kc = (name, user_task)" by (cases kc)
  from Cons.prems kc have row: "rtos_data user_task = Inr (context_row user_task)"
    by (simp add: rtos_data_ok)
  from Cons.prems have rest: "list_all (\<lambda>kc. is_context (snd kc)) es" by simp
  show ?case
    by (simp add: kc row Cons.IH[OF rest] addEntry_def)
qed

lemma all_keys_empty:
  "(length (filter (\<lambda>kc. fst kc = []) cs) = length cs) = list_all (\<lambda>kc. fst kc = []) cs"
  by (metis (mono_tags, lifting) Ball_set filter_id_conv length_filter_less less_irrefl)

lemma write_json_pretty:
  "write_json_helper pt depth True = pretty_json (json_of pt depth) depth"
  "write_array_items cs depth True =
     pretty_elements (map (\<lambda>kc. json_of (snd kc) (depth + 1)) cs) (depth + 1)"
  "write_object_items cs depth True =
     pretty_members (map (\<lambda>kc. (fst kc, json_of (snd kc) (depth + 1))) cs) (depth + 1)"
proof (induction pt depth True and cs depth True and cs depth True
       rule: write_json_helper_write_array_items_write_object_items.induct)
  case (1 d cs indent)
  then show ?case by (auto simp add: all_keys_empty json_string_def indentation_def)
next
  case (2 indent)
  then show ?case by simp
next
  case (3 k c rest indent)
  then show ?case by (simp add: indentation_def)
next
  case (4 indent)
  then show ?case by simp
next
  case (5 k c rest indent)
  then show ?case by (simp add: indentation_def json_string_def)
qed

lemma map_of_members:
  "map_of (map (\<lambda>kc. (fst kc, f (snd kc))) cs) key = map_option f (map_of cs key)"
  by (induction cs) auto

lemma clock_entries_child:
  "clock_entries clocks \<noteq> [] \<Longrightarrow>
   \<exists>arr. map_of (children clocks) ''clocks'' = Some arr \<and> children arr = clock_entries clocks"
  by (auto simp: clock_entries_def get_child_def empty_tree_def split: option.splits)

subsection \<open>The reader reads what the writer writes\<close>

lemma hex_value_hexdigit: "d < 16 \<Longrightarrow> hex_value (hexdigit d) = Some d"
proof -
  have all: "list_all (\<lambda>d. hex_value (hexdigit d) = Some d) [0..<16]"
    by code_simp
  assume "d < 16"
  then have "d \<in> set [0..<16]" by simp
  with all show ?thesis by (simp only: list_all_iff)
qed

lemma char_code_eq: "(c = d) = ((of_char c :: nat) = of_char d)"
  by simp

lemma read_chars_escape_char:
  "read_chars (escape_char c @ X) =
     (case read_chars X of None \<Rightarrow> None | Some (s, t) \<Rightarrow> Some (c # s, t))"
proof -
  let ?n = "of_char c :: nat"
  have n: "?n < 256" by simp
  have q: "(c = dquote) = (?n = 34)" "(c = backslash) = (?n = 92)"
      "(c = CHR ''/'') = (?n = 47)" "(c = CHR 0x08) = (?n = 8)" "(c = CHR 0x0C) = (?n = 12)"
      "(c = newline) = (?n = 10)" "(c = CHR 0x0D) = (?n = 13)" "(c = CHR 0x09) = (?n = 9)"
    by (simp_all add: char_code_eq[of c])
  have "(?n = 0x20 \<or> ?n = 0x21 \<or> (0x23 \<le> ?n \<and> ?n \<le> 0x2E) \<or>
         (0x30 \<le> ?n \<and> ?n \<le> 0x5B) \<or> (0x5D \<le> ?n \<and> ?n \<le> 0xFF)) \<or>
        (?n = 8 \<or> ?n = 12 \<or> ?n = 10 \<or> ?n = 13 \<or> ?n = 9 \<or> ?n = 47 \<or> ?n = 34 \<or> ?n = 92) \<or>
        (?n < 32 \<and> ?n \<noteq> 8 \<and> ?n \<noteq> 12 \<and> ?n \<noteq> 10 \<and> ?n \<noteq> 13 \<and> ?n \<noteq> 9)"
    using n by arith
  then consider (safe) "?n = 0x20 \<or> ?n = 0x21 \<or> (0x23 \<le> ?n \<and> ?n \<le> 0x2E) \<or>
         (0x30 \<le> ?n \<and> ?n \<le> 0x5B) \<or> (0x5D \<le> ?n \<and> ?n \<le> 0xFF)"
    | (named) "?n = 8 \<or> ?n = 12 \<or> ?n = 10 \<or> ?n = 13 \<or> ?n = 9 \<or> ?n = 47 \<or> ?n = 34 \<or> ?n = 92"
    | (control) "?n < 32" "?n \<noteq> 8" "?n \<noteq> 12" "?n \<noteq> 10" "?n \<noteq> 13" "?n \<noteq> 9"
    by blast
  then show ?thesis
  proof cases
    case safe
    then have e: "escape_char c = [c]"
      by (simp add: escape_char_def)
    from safe have "c \<noteq> dquote" "c \<noteq> backslash" "\<not> ?n < 0x20"
      by (auto simp: q)
    then show ?thesis
      by (simp add: e)
  next
    case named
    then have "c = CHR 0x08 \<or> c = CHR 0x0C \<or> c = newline \<or> c = CHR 0x0D \<or> c = CHR 0x09 \<or>
               c = CHR ''/'' \<or> c = dquote \<or> c = backslash"
      by (simp add: q)
    then show ?thesis
      by (elim disjE) (simp_all add: escape_char_def unescape_def split: option.splits)
  next
    case control
    have d3: "?n div 16 < 16" using control(1) by simp
    have d4: "?n - ?n div 16 * 16 < 16" using control(1) by simp
    have v: "?n div 16 * 16 + (?n - ?n div 16 * 16) = ?n" by simp
    have e: "escape_char c =
        [backslash, CHR ''u'', hexdigit 0, hexdigit 0, hexdigit (?n div 16),
         hexdigit (?n - ?n div 16 * 16)]"
      using control by (simp add: escape_char_def q Let_def)
    have cp: "code_point (hexdigit 0) (hexdigit 0) (hexdigit (?n div 16))
                 (hexdigit (?n - ?n div 16 * 16)) = Some ?n"
      by (simp add: code_point_def hex_value_hexdigit d3 d4 v)
    show ?thesis
      using control(1) by (simp add: e cp split: option.splits)
  qed
qed

lemma read_chars_create_escapes:
  "read_chars (create_escapes s @ dquote # r) = Some (s, r)"
  by (induction s) (simp_all add: create_escapes_def read_chars_escape_char)

lemma skip_ws_spaces: "skip_ws (replicate k space @ s) = skip_ws s"
  by (induction k) (simp_all add: is_ws_def)

lemma skip_ws_newline: "skip_ws (newline # s) = skip_ws s"
  by (simp add: is_ws_def)

lemma skip_ws_start:
  "skip_ws (dquote # s) = dquote # s" "skip_ws (CHR ''['' # s) = CHR ''['' # s"
  "skip_ws (CHR ''{'' # s) = CHR ''{'' # s" "skip_ws (CHR '']'' # s) = CHR '']'' # s"
  "skip_ws (CHR ''}'' # s) = CHR ''}'' # s" "skip_ws (CHR '','' # s) = CHR '','' # s"
  "skip_ws (CHR '':'' # s) = CHR '':'' # s"
  by (simp_all add: is_ws_def)

lemma read_value_spaces: "read_value n (replicate k space @ s) = read_value n s"
  by (cases n) (simp_all add: skip_ws_spaces)

lemma read_value_newline: "read_value n (newline # s) = read_value n s"
  by (cases n) (simp_all add: is_ws_def)

lemma read_value_space: "read_value n (space # s) = read_value n s"
  using read_value_spaces[of n 1 s] by simp

lemma read_elements_newline: "read_elements n (newline # s) = read_elements n s"
  by (cases n) (simp_all add: read_value_newline)

lemma read_members_newline: "read_members n (newline # s) = read_members n s"
  by (cases n) (simp_all add: is_ws_def)

lemma read_members_spaces: "read_members n (replicate k space @ s) = read_members n s"
  by (cases n) (simp_all add: skip_ws_spaces)

lemma helper_head:
  "\<exists>r. write_json_helper pt d True = dquote # r \<or> write_json_helper pt d True = CHR ''['' # r \<or>
       write_json_helper pt d True = CHR ''{'' # r"
  by (cases pt) auto

lemma items_head:
  assumes "cs \<noteq> []"
  shows "\<exists>c r. skip_ws (write_array_items cs d True @ X) = c # r \<and> c \<noteq> CHR '']''"
proof -
  from assms obtain k c rest where cs: "cs = (k, c) # rest"
    by (cases cs) auto
  obtain r where "write_json_helper c (d + 1) True = dquote # r \<or>
       write_json_helper c (d + 1) True = CHR ''['' # r \<or>
       write_json_helper c (d + 1) True = CHR ''{'' # r"
    using helper_head by blast
  then show ?thesis
    by (auto simp: cs skip_ws_spaces is_ws_def)
qed

lemma members_head:
  assumes "cs \<noteq> []"
  shows "\<exists>r. skip_ws (write_object_items cs d True @ X) = dquote # r"
proof -
  from assms obtain k c rest where cs: "cs = (k, c) # rest"
    by (cases cs) auto
  show ?thesis
    by (simp add: cs skip_ws_spaces is_ws_def)
qed


lemma read_written:
  "\<forall>n rest. length (write_json_helper pt d True) \<le> n \<longrightarrow>
     read_value n (write_json_helper pt d True @ rest) = Some (json_of pt d, rest)"
  "cs \<noteq> [] \<longrightarrow>
   (\<forall>n rest. length (write_array_items cs d True) \<le> n \<longrightarrow>
     read_elements n (write_array_items cs d True @ replicate (4 * d) space @ CHR '']'' # rest) =
       Some (map (\<lambda>kc. json_of (snd kc) (d + 1)) cs, rest))"
  "cs \<noteq> [] \<longrightarrow>
   (\<forall>n rest. length (write_object_items cs d True) \<le> n \<longrightarrow>
     read_members n (write_object_items cs d True @ replicate (4 * d) space @ CHR ''}'' # rest) =
       Some (map (\<lambda>kc. (fst kc, json_of (snd kc) (d + 1))) cs, rest))"
proof (induction pt d True and cs d True and cs d True
       rule: write_json_helper_write_array_items_write_object_items.induct)
  case (1 dd cs indent)
  show ?case
  proof (intro allI impI)
    fix n rest
    assume len: "length (write_json_helper (Ptree dd cs) indent True) \<le> n"
    then obtain m where n: "n = Suc m" by (cases n) (auto split: if_splits)
    consider (str) "indent > 0" "cs = []"
      | (arr) "indent > 0" "cs \<noteq> []" "list_all (\<lambda>kc. fst kc = []) cs"
      | (obj) "cs \<noteq> []" "\<not> (indent > 0 \<and> list_all (\<lambda>kc. fst kc = []) cs)"
      | (root) "indent = 0" "cs = []"
      by blast
    then show "read_value n (write_json_helper (Ptree dd cs) indent True @ rest) =
                 Some (json_of (Ptree dd cs) indent, rest)"
    proof cases
      case str
      then show ?thesis
        by (simp add: n is_ws_def read_chars_create_escapes)
    next
      case arr
      have keys: "length (filter (\<lambda>kc. fst kc = []) cs) = length cs"
        using arr(3) by (simp add: all_keys_empty)
      have m: "length (write_array_items cs indent True) \<le> m"
        using len arr keys by (simp add: n)
      obtain c r where hd: "skip_ws (write_array_items cs indent True @
                              replicate (4 * indent) space @ CHR '']'' # rest) = c # r"
          "c \<noteq> CHR '']''"
        using items_head[OF arr(2)] by blast
      have items: "read_elements m (write_array_items cs indent True @
                     replicate (4 * indent) space @ CHR '']'' # rest) =
                   Some (map (\<lambda>kc. json_of (snd kc) (indent + 1)) cs, rest)"
        using "1"(1) arr keys m by simp
      show ?thesis
        using arr keys hd items
        by (simp add: n is_ws_def read_elements_newline)
    next
      case obj
      have nokeys: "\<not> (indent > 0 \<and> length (filter (\<lambda>kc. fst kc = []) cs) = length cs)"
        using obj(2) by (simp add: all_keys_empty)
      have m: "length (write_object_items cs indent True) \<le> m"
        using len obj nokeys by (auto simp add: n)
      obtain r where hd: "skip_ws (write_object_items cs indent True @
                              replicate (4 * indent) space @ CHR ''}'' # rest) = dquote # r"
        using members_head[OF obj(1)] by blast
      have members: "read_members m (write_object_items cs indent True @
                     replicate (4 * indent) space @ CHR ''}'' # rest) =
                   Some (map (\<lambda>kc. (fst kc, json_of (snd kc) (indent + 1))) cs, rest)"
        using "1"(2) obj nokeys m by auto
      show ?thesis
        using obj nokeys hd members
        by (auto simp add: n is_ws_def read_members_newline)
    next
      case root
      then show ?thesis
        by (simp add: n is_ws_def)
    qed
  qed
next
  case (2 indent)
  then show ?case by simp
next
  case (3 k c rest' indent)
  show ?case
  proof (intro allI impI)
    fix n rest
    assume len: "length (write_array_items ((k, c) # rest') indent True) \<le> n"
    then obtain m where n: "n = Suc m" by (cases n) auto
    have v: "length (write_json_helper c (indent + 1) True) \<le> m"
      using len by (simp add: n)
    note item = "3"(1)[rule_format, OF v]
    show "read_elements n (write_array_items ((k, c) # rest') indent True @
            replicate (4 * indent) space @ CHR '']'' # rest) =
          Some (map (\<lambda>kc. json_of (snd kc) (indent + 1)) ((k, c) # rest'), rest)"
    proof (cases "rest' = []")
      case True
      then show ?thesis
        using item[of "newline # replicate (4 * indent) space @ CHR '']'' # rest"]
        by (simp add: n read_value_spaces[of m "4 * (indent + 1)", simplified]
              is_ws_def skip_ws_spaces)
    next
      case False
      have r: "length (write_array_items rest' indent True) \<le> m"
        using len by (simp add: n)
      note more = "3"(2)[rule_format, OF False r, of rest]
      show ?thesis
        using False more
          item[of "CHR '','' # newline # write_array_items rest' indent True @
                    replicate (4 * indent) space @ CHR '']'' # rest"]
        by (simp add: n read_value_spaces[of m "4 * (indent + 1)", simplified]
              is_ws_def read_elements_newline)
    qed
  qed
next
  case (4 indent)
  then show ?case by simp
next
  case (5 k c rest' indent)
  show ?case
  proof (intro allI impI)
    fix n rest
    assume len: "length (write_object_items ((k, c) # rest') indent True) \<le> n"
    then obtain m where n: "n = Suc m" by (cases n) auto
    have v: "length (write_json_helper c (indent + 1) True) \<le> m"
      using len by (simp add: n)
    note item = "5"(1)[rule_format, OF v]
    show "read_members n (write_object_items ((k, c) # rest') indent True @
            replicate (4 * indent) space @ CHR ''}'' # rest) =
          Some (map (\<lambda>kc. (fst kc, json_of (snd kc) (indent + 1))) ((k, c) # rest'), rest)"
    proof (cases "rest' = []")
      case True
      then show ?thesis
        using item[of "newline # replicate (4 * indent) space @ CHR ''}'' # rest"]
        by (simp add: n skip_ws_spaces[of "4 * (indent + 1)", simplified]
              is_ws_def skip_ws_spaces read_chars_create_escapes read_value_space)
    next
      case False
      have r: "length (write_object_items rest' indent True) \<le> m"
        using len by (simp add: n)
      note more = "5"(2)[rule_format, OF False r, of rest]
      show ?thesis
        using False more
          item[of "CHR '','' # newline # write_object_items rest' indent True @
                    replicate (4 * indent) space @ CHR ''}'' # rest"]
        by (simp add: n skip_ws_spaces[of "4 * (indent + 1)", simplified]
              is_ws_def read_chars_create_escapes read_value_space read_members_newline)
    qed
  qed
qed

lemma read_json_written:
  "read_json (write_json_helper pt 0 True @ [newline]) = Some (json_of pt 0)"
proof -
  have enough: "length (write_json_helper pt 0 True) \<le>
                  length (write_json_helper pt 0 True @ [newline])"
    by simp
  have "read_value (length (write_json_helper pt 0 True @ [newline]))
          (write_json_helper pt 0 True @ [newline]) = Some (json_of pt 0, [newline])"
    by (rule read_written(1)[rule_format, OF enough])
  moreover have "skip_ws [newline] = []"
    by (simp add: is_ws_def)
  ultimately show ?thesis
    by (simp add: read_json_def)
qed

subsection \<open>Traces of the renderers and of the dispatch\<close>

lemma print_clock_info_trace:
  "fst (print_clock_info env dev j) = [Get_clock_info dev] \<or>
   (\<exists>shown. fst (print_clock_info env dev j) = [Get_clock_info dev, Cout shown])"
  by (auto simp: print_clock_info_def Let_def split: sum.splits)

lemma print_preemption_telemetry_trace:
  "fst (print_preemption_telemetry env dev j) = [Preemption_telemetry_info dev] \<or>
   (\<exists>shown. fst (print_preemption_telemetry env dev j) =
              [Preemption_telemetry_info dev, Cout shown]) \<or>
   (\<exists>t shown. fst (print_preemption_telemetry env dev j) =
              [Preemption_telemetry_info dev, ToString t ''  '', Cout shown])"
  by (auto simp: print_preemption_telemetry_def Let_def split: sum.splits)

lemma catch_xrt_error_trace:
  "fst (catch_xrt_error env body) = fst body \<or>
   (\<exists>shown. fst (catch_xrt_error env body) = fst body @ [Cerr shown, PrintHelp])"
  by (auto simp: catch_xrt_error_def split: sum.splits)

lemma dispatch_clocks:
  "casing_of ''clocks'' (m_action m) \<Longrightarrow>
   execute_dispatch env m dev = catch_xrt_error env (print_clock_info env dev (m_json m))"
  by (simp add: execute_dispatch_def iequals_clocks)

lemma dispatch_preemption:
  "casing_of ''preemption'' (m_action m) \<Longrightarrow>
   execute_dispatch env m dev =
     catch_xrt_error env (print_preemption_telemetry env dev (m_json m))"
  by (simp add: execute_dispatch_def iequals_clocks iequals_preemption casing_disjoint)

lemma dispatch_invalid:
  "\<not> casing_of ''clocks'' (m_action m) \<Longrightarrow> \<not> casing_of ''preemption'' (m_action m) \<Longrightarrow>
   execute_dispatch env m dev =
     ([Cerr (invalid_report_diagnostic env (m_action m)), PrintHelp], Inl Operation_canceled)"
  by (simp add: execute_dispatch_def iequals_clocks iequals_preemption catch_xrt_error_def
        invalid_report_diagnostic_def)

lemma dispatch_no_get_device:
  "Get_device ident in_user \<notin> set (fst (execute_dispatch env m dev))"
proof -
  have c: "Get_device ident in_user \<notin> set (fst (print_clock_info env dev j))" for j
    using print_clock_info_trace[of env dev j] by auto
  have p: "Get_device ident in_user \<notin> set (fst (print_preemption_telemetry env dev j))" for j
    using print_preemption_telemetry_trace[of env dev j] by auto
  have k: "Get_device ident in_user \<notin> set (fst body) \<Longrightarrow>
           Get_device ident in_user \<notin> set (fst (catch_xrt_error env body))" for body
    using catch_xrt_error_trace[of env body] by auto
  show ?thesis
    unfolding execute_dispatch_def by (rule k) (simp add: c p)
qed

lemma verbose_options_events:
  "e \<in> set (verbose_options options) \<Longrightarrow> \<exists>shown. e = Verbose shown"
  by (auto simp: verbose_options_def)

lemma print_clock_info_hd:
  "hd (fst (print_clock_info env dev j)) = Get_clock_info dev"
  using print_clock_info_trace[of env dev j] by auto

lemma print_preemption_telemetry_hd:
  "hd (fst (print_preemption_telemetry env dev j)) = Preemption_telemetry_info dev"
  using print_preemption_telemetry_trace[of env dev j] by auto

lemma catch_xrt_error_hd:
  "fst body \<noteq> [] \<Longrightarrow> hd (fst (catch_xrt_error env body)) = hd (fst body)"
  using catch_xrt_error_trace[of env body] by auto

lemma print_clock_info_nonempty: "fst (print_clock_info env dev j) \<noteq> []"
  using print_clock_info_trace[of env dev j] by auto

lemma print_preemption_telemetry_nonempty: "fst (print_preemption_telemetry env dev j) \<noteq> []"
  using print_preemption_telemetry_trace[of env dev j] by auto

lemma execute_parsed_device:
  "to_lower_copy d1 = to_lower_copy d2 \<Longrightarrow>
   execute_parsed env (m\<lparr>m_device := d1\<rparr>) = execute_parsed env (m\<lparr>m_device := d2\<rparr>)"
  by (simp add: execute_parsed_def execute_dispatch_def Let_def split: sum.splits)

section \<open>The clock report\<close>

text \<open>
  Claim C2. When the fetched clock structure has no clock entries, the renderer writes
  exactly the header line, the line "  No clock information available" and an empty
  line to standard output, whether or not JSON was asked for; no JSON document is
  written.
\<close>

theorem clock_info_empty:
  assumes "get_clock_info env dev = Inr clocks"
    and "clock_entries clocks = []"
  shows "print_clock_info env dev is_json =
           ([Get_clock_info dev,
             Cout ''Clocks\<newline>  No clock information available\<newline>\<newline>''], Inr ())
         \<and> stdout_of (fst (print_clock_info env dev is_json)) =
           ''Clocks\<newline>  No clock information available\<newline>\<newline>''"
  using assms by (simp add: print_clock_info_def clock_entries_def ptree_empty_def)

theorem clock_info_empty_witness:
  "get_clock_info idle_env (Device ''0000:d8:00.0'') = Inr no_clocks \<and>
   clock_entries no_clocks = [] \<and>
   stdout_of (fst (print_clock_info idle_env (Device ''0000:d8:00.0'') True)) =
     ''Clocks\<newline>  No clock information available\<newline>\<newline>'' \<and>
   stdout_of (fst (print_clock_info idle_env (Device ''0000:d8:00.0'') False)) =
     ''Clocks\<newline>  No clock information available\<newline>\<newline>''"
proof -
  have fetch: "get_clock_info idle_env (Device ''0000:d8:00.0'') = Inr no_clocks"
    by (simp add: idle_env_def sample_env_def)
  have none: "clock_entries no_clocks = []"
    by (simp add: clock_entries_def no_clocks_def get_child_def)
  show ?thesis
    by (intro conjI fetch none
          clock_info_empty[OF fetch none, of True, THEN conjunct2]
          clock_info_empty[OF fetch none, of False, THEN conjunct2])
qed

text \<open>
  Claim C6. When the fetched clock structure has clock entries (each with an id and a
  frequency) and JSON was not asked for, the renderer writes, after the header, one
  line per entry in order: two spaces, the id padded on the right to 23 characters,
  ": ", the frequency padded on the left to 3 characters, and " MHz".
\<close>

theorem clock_info_table:
  assumes "get_clock_info env dev = Inr clocks"
    and "clock_entries clocks \<noteq> []"
    and "list_all (\<lambda>kc. is_clock_entry (snd kc)) (clock_entries clocks)"
  shows "print_clock_info env dev False =
           ([Get_clock_info dev,
             Cout (''Clocks\<newline>'' @
                   concat (map (\<lambda>kc. clock_line (snd kc)) (clock_entries clocks)))],
            Inr ())
         \<and> length (map (\<lambda>kc. clock_line (snd kc)) (clock_entries clocks)) =
             length (clock_entries clocks)
         \<and> (\<forall>kc \<in> set (clock_entries clocks).
               clock_line (snd kc) =
                 ''  '' @ format_left 23 (field (snd kc) ''id'') @ '': '' @
                 format_right 3 (field (snd kc) ''freq_mhz'') @ '' MHz\<newline>'')
         \<and> (\<forall>s. length (format_left 23 s) = max 23 (length s) \<and>
                  format_left 23 s = s @ replicate (23 - length s) space)
         \<and> (\<forall>s. length (format_right 3 s) = max 3 (length s) \<and>
                  format_right 3 s = replicate (3 - length s) space @ s)"
proof -
  have run: "print_clock_info env dev False =
           ([Get_clock_info dev,
             Cout (''Clocks\<newline>'' @
                   concat (map (\<lambda>kc. clock_line (snd kc)) (clock_entries clocks)))],
            Inr ())"
    using assms(1,2) clock_lines_ok[OF assms(3)]
    by (simp add: print_clock_info_def clock_entries_def ptree_empty_def)
  have line: "\<forall>kc \<in> set (clock_entries clocks).
               clock_line (snd kc) =
                 ''  '' @ format_left 23 (field (snd kc) ''id'') @ '': '' @
                 format_right 3 (field (snd kc) ''freq_mhz'') @ '' MHz\<newline>''"
    by (simp add: clock_line_def)
  have lj: "\<forall>s. length (format_left 23 s) = max 23 (length s) \<and>
                  format_left 23 s = s @ replicate (23 - length s) space"
    by (simp add: format_left_def max_def)
  have rj: "\<forall>s. length (format_right 3 s) = max 3 (length s) \<and>
                  format_right 3 s = replicate (3 - length s) space @ s"
    by (simp add: format_right_def max_def)
  show ?thesis
    by (intro conjI run length_map line lj rj)
qed

theorem clock_info_table_witness:
  "get_clock_info sample_env (Device ''0000:d8:00.0'') = Inr sample_clocks \<and>
   clock_entries sample_clocks \<noteq> [] \<and>
   list_all (\<lambda>kc. is_clock_entry (snd kc)) (clock_entries sample_clocks) \<and>
   print_clock_info sample_env (Device ''0000:d8:00.0'') False =
     ([Get_clock_info (Device ''0000:d8:00.0''),
       Cout (''Clocks\<newline>'' @
             ''  DATA_CLK               : 300 MHz\<newline>'' @
             ''  KERNEL_CLK             : 1000 MHz\<newline>'')],
      Inr ())"
proof -
  have fetch: "get_clock_info sample_env (Device ''0000:d8:00.0'') = Inr sample_clocks"
    by (simp add: sample_env_def)
  have entries:
    "clock_entries sample_clocks =
       [([], Ptree [] [(''id'', Ptree ''DATA_CLK'' []), (''description'', Ptree ''Data'' []),
                       (''freq_mhz'', Ptree ''300'' [])]),
        ([], Ptree [] [(''id'', Ptree ''KERNEL_CLK'' []),
                       (''description'', Ptree ''Kernel'' []),
                       (''freq_mhz'', Ptree ''1000'' [])])]"
    by (simp add: clock_entries_def sample_clocks_def get_child_def)
  have some: "clock_entries sample_clocks \<noteq> []"
    by (simp add: entries)
  have fields: "list_all (\<lambda>kc. is_clock_entry (snd kc)) (clock_entries sample_clocks)"
    by (simp add: entries is_clock_entry_def has_field_def)
  have shown:
    "concat (map (\<lambda>kc. clock_line (snd kc)) (clock_entries sample_clocks)) =
       ''  DATA_CLK               : 300 MHz\<newline>'' @
       ''  KERNEL_CLK             : 1000 MHz\<newline>''"
    by code_simp
  have run: "print_clock_info sample_env (Device ''0000:d8:00.0'') False =
     ([Get_clock_info (Device ''0000:d8:00.0''),
       Cout (''Clocks\<newline>'' @
             ''  DATA_CLK               : 300 MHz\<newline>'' @
             ''  KERNEL_CLK             : 1000 MHz\<newline>'')],
      Inr ())"
    using clock_info_table[OF fetch some fields, THEN conjunct1]
    by (simp only: shown)
  show ?thesis
    by (intro conjI fetch some fields run)
qed

text \<open>
  Claim C5. When the fetched clock structure has clock entries, is representable as
  JSON and keeps its entries as an array, and JSON was asked for, the renderer writes
  to standard output the text that \<open>write_json\<close> makes of the whole fetched structure
  and nothing else: no header and no table. That text reads as one JSON document, an
  object whose member "clocks" is an array with exactly one element per fetched clock
  entry, whatever characters the fetched strings hold; and it is the pretty-printed
  text of that document.
\<close>

theorem clock_info_json:
  assumes "get_clock_info env dev = Inr clocks"
    and "clock_entries clocks \<noteq> []"
    and "verify_json clocks 0"
    and "list_all (\<lambda>kc. fst kc = []) (clock_entries clocks)"
  shows "print_clock_info env dev True =
           ([Get_clock_info dev, Cout (write_json_helper clocks 0 True @ [newline])], Inr ())
         \<and> read_json (stdout_of (fst (print_clock_info env dev True))) =
             Some (JObject (map (\<lambda>kc. (fst kc, json_of (snd kc) 1)) (children clocks)))
         \<and> map_of (map (\<lambda>kc. (fst kc, json_of (snd kc) 1)) (children clocks)) ''clocks'' =
             Some (JArray (map (\<lambda>kc. json_of (snd kc) 2) (clock_entries clocks)))
         \<and> clocks_array_length (stdout_of (fst (print_clock_info env dev True))) =
             Some (length (clock_entries clocks))
         \<and> stdout_of (fst (print_clock_info env dev True)) =
             pretty_json (json_of clocks 0) 0 @ [newline]"
proof -
  obtain arr where arr: "map_of (children clocks) ''clocks'' = Some arr"
      "children arr = clock_entries clocks"
    using clock_entries_child[OF assms(2)] by blast
  have run: "print_clock_info env dev True =
           ([Get_clock_info dev, Cout (write_json_helper clocks 0 True @ [newline])], Inr ())"
    using assms(1,2,3)
    by (simp add: print_clock_info_def clock_entries_def ptree_empty_def write_json_def)
  have out: "stdout_of (fst (print_clock_info env dev True)) =
               write_json_helper clocks 0 True @ [newline]"
    by (simp add: run)
  have root: "json_of clocks 0 =
             JObject (map (\<lambda>kc. (fst kc, json_of (snd kc) 1)) (children clocks))"
    by (cases clocks) simp
  have doc: "read_json (stdout_of (fst (print_clock_info env dev True))) =
             Some (JObject (map (\<lambda>kc. (fst kc, json_of (snd kc) 1)) (children clocks)))"
    using read_json_written[of clocks] by (simp only: out root)
  have "json_of arr 1 = JArray (map (\<lambda>kc. json_of (snd kc) 2) (clock_entries clocks))"
    using arr(2) assms(2,4) by (cases arr) (simp add: numeral_2_eq_2)
  then have member:
    "map_of (map (\<lambda>kc. (fst kc, json_of (snd kc) 1)) (children clocks)) ''clocks'' =
       Some (JArray (map (\<lambda>kc. json_of (snd kc) 2) (clock_entries clocks)))"
    using map_of_members[of "\<lambda>c. json_of c 1" "children clocks" "''clocks''"] arr(1)
    by simp
  have count: "clocks_array_length (stdout_of (fst (print_clock_info env dev True))) =
             Some (length (clock_entries clocks))"
    unfolding clocks_array_length_def by (simp only: doc member option.case json.case length_map)
  have layout: "stdout_of (fst (print_clock_info env dev True)) =
             pretty_json (json_of clocks 0) 0 @ [newline]"
    by (simp add: out write_json_pretty(1))
  show ?thesis
    by (intro conjI run doc member count layout)
qed

theorem clock_info_json_witness:
  "get_clock_info sample_env (Device ''0000:d8:00.0'') = Inr sample_clocks \<and>
   clock_entries sample_clocks \<noteq> [] \<and>
   verify_json sample_clocks 0 \<and>
   list_all (\<lambda>kc. fst kc = []) (clock_entries sample_clocks) \<and>
   length (clock_entries sample_clocks) = 2 \<and>
   clocks_array_length
     (stdout_of (fst (print_clock_info sample_env (Device ''0000:d8:00.0'') True))) = Some 2 \<and>
   get_clock_info (sample_env\<lparr>get_clock_info := (\<lambda>dev. Inr tricky_clocks)\<rparr>)
     (Device ''0000:d8:00.0'') = Inr tricky_clocks \<and>
   clock_entries tricky_clocks \<noteq> [] \<and>
   verify_json tricky_clocks 0 \<and>
   list_all (\<lambda>kc. fst kc = []) (clock_entries tricky_clocks) \<and>
   length (clock_entries tricky_clocks) = 1 \<and>
   clocks_array_length
     (stdout_of (fst (print_clock_info
        (sample_env\<lparr>get_clock_info := (\<lambda>dev. Inr tricky_clocks)\<rparr>)
        (Device ''0000:d8:00.0'') True))) = Some 1"
proof -
  let ?tricky_env = "sample_env\<lparr>get_clock_info := (\<lambda>dev. Inr tricky_clocks)\<rparr>"
  have fetch: "get_clock_info sample_env (Device ''0000:d8:00.0'') = Inr sample_clocks"
    by (simp add: sample_env_def)
  have some: "clock_entries sample_clocks \<noteq> []"
    by code_simp
  have ok: "verify_json sample_clocks 0"
    by code_simp
  have array: "list_all (\<lambda>kc. fst kc = []) (clock_entries sample_clocks)"
    by code_simp
  have two: "length (clock_entries sample_clocks) = 2"
    by code_simp
  have count: "clocks_array_length
     (stdout_of (fst (print_clock_info sample_env (Device ''0000:d8:00.0'') True))) = Some 2"
    using clock_info_json[OF fetch some ok array, THEN conjunct2, THEN conjunct2,
            THEN conjunct2, THEN conjunct1]
    by (simp only: two)
  have fetch': "get_clock_info ?tricky_env (Device ''0000:d8:00.0'') = Inr tricky_clocks"
    by simp
  have some': "clock_entries tricky_clocks \<noteq> []"
    by code_simp
  have ok': "verify_json tricky_clocks 0"
    by code_simp
  have array': "list_all (\<lambda>kc. fst kc = []) (clock_entries tricky_clocks)"
    by code_simp
  have one: "length (clock_entries tricky_clocks) = 1"
    by code_simp
  have count': "clocks_array_length
     (stdout_of (fst (print_clock_info ?tricky_env (Device ''0000:d8:00.0'') True))) = Some 1"
    using clock_info_json[OF fetch' some' ok' array', THEN conjunct2, THEN conjunct2,
            THEN conjunct2, THEN conjunct1]
    by (simp only: one)
  show ?thesis
    by (intro conjI fetch some ok array two count fetch' some' ok' array' one count')
qed

text \<open>
  Claim C1 says that the output starts with the "Clocks" header line in every branch,
  JSON mode with data included. The header is put into the buffer \<open>ss\<close> on line 30,
  but the JSON branch (lines 38 to 41) writes the document straight to standard output
  and returns without printing the buffer. With the two sample clocks and JSON asked
  for, the run succeeds and its output starts with the opening brace of the document,
  not with the header.
\<close>

theorem json_output_without_header_counterexample:
  "snd (print_clock_info sample_env (Device ''0000:d8:00.0'') True) = Inr () \<and>
   \<not> prefix ''Clocks\<newline>''
       (stdout_of (fst (print_clock_info sample_env (Device ''0000:d8:00.0'') True))) \<and>
   take 17 (stdout_of (fst (print_clock_info sample_env (Device ''0000:d8:00.0'') True))) =
     [CHR ''{'', newline] @ ''    '' @ [dquote] @ ''clocks'' @ [dquote] @ '': [''"
  by code_simp

text \<open>
  Claim C1, amended. The output starts with the "Clocks" header line when there are no
  clock entries (with or without JSON) and in table mode (entries with an id and a
  frequency). In JSON mode with clock entries the output is the JSON document alone: it
  starts with an opening brace and carries no header line.
\<close>

theorem clock_header:
  assumes "get_clock_info env dev = Inr clocks"
  shows "(clock_entries clocks = [] \<or>
          (\<not> is_json \<and> list_all (\<lambda>kc. is_clock_entry (snd kc)) (clock_entries clocks)) \<longrightarrow>
            snd (print_clock_info env dev is_json) = Inr () \<and>
            prefix ''Clocks\<newline>'' (stdout_of (fst (print_clock_info env dev is_json))))
       \<and> (clock_entries clocks \<noteq> [] \<and> is_json \<and> verify_json clocks 0 \<longrightarrow>
            snd (print_clock_info env dev is_json) = Inr () \<and>
            stdout_of (fst (print_clock_info env dev is_json)) =
              write_json_helper clocks 0 True @ [newline] \<and>
            prefix [CHR ''{'', newline] (stdout_of (fst (print_clock_info env dev is_json))) \<and>
            \<not> prefix ''Clocks\<newline>'' (stdout_of (fst (print_clock_info env dev is_json))))"
proof (intro conjI impI)
  assume a: "clock_entries clocks = [] \<or>
          (\<not> is_json \<and> list_all (\<lambda>kc. is_clock_entry (snd kc)) (clock_entries clocks))"
  show "snd (print_clock_info env dev is_json) = Inr ()"
    using a assms clock_lines_ok[of "clock_entries clocks" "''Clocks\<newline>''"]
    by (auto simp add: print_clock_info_def clock_entries_def ptree_empty_def Let_def)
  show "prefix ''Clocks\<newline>'' (stdout_of (fst (print_clock_info env dev is_json)))"
    using a assms clock_lines_ok[of "clock_entries clocks" "''Clocks\<newline>''"]
    by (auto simp add: print_clock_info_def clock_entries_def ptree_empty_def Let_def)
next
  assume b: "clock_entries clocks \<noteq> [] \<and> is_json \<and> verify_json clocks 0"
  have out: "print_clock_info env dev is_json =
       ([Get_clock_info dev, Cout (write_json_helper clocks 0 True @ [newline])], Inr ())"
    using b assms
    by (simp add: print_clock_info_def clock_entries_def ptree_empty_def write_json_def)
  have brace: "\<exists>rest. write_json_helper clocks 0 True = CHR ''{'' # newline # rest"
    by (cases clocks) simp
  show "snd (print_clock_info env dev is_json) = Inr ()" by (simp add: out)
  show "stdout_of (fst (print_clock_info env dev is_json)) =
              write_json_helper clocks 0 True @ [newline]" by (simp add: out)
  show "prefix [CHR ''{'', newline] (stdout_of (fst (print_clock_info env dev is_json)))"
    using brace by (auto simp add: out)
  show "\<not> prefix ''Clocks\<newline>'' (stdout_of (fst (print_clock_info env dev is_json)))"
    using brace by (auto simp add: out)
qed

theorem clock_header_witness:
  "get_clock_info sample_env (Device ''0000:d8:00.0'') = Inr sample_clocks \<and>
   list_all (\<lambda>kc. is_clock_entry (snd kc)) (clock_entries sample_clocks) \<and>
   clock_entries sample_clocks \<noteq> [] \<and>
   verify_json sample_clocks 0 \<and>
   prefix ''Clocks\<newline>''
     (stdout_of (fst (print_clock_info sample_env (Device ''0000:d8:00.0'') False))) \<and>
   prefix [CHR ''{'', newline]
     (stdout_of (fst (print_clock_info sample_env (Device ''0000:d8:00.0'') True))) \<and>
   \<not> prefix ''Clocks\<newline>''
     (stdout_of (fst (print_clock_info sample_env (Device ''0000:d8:00.0'') True)))"
proof -
  have fetch: "get_clock_info sample_env (Device ''0000:d8:00.0'') = Inr sample_clocks"
    by (simp add: sample_env_def)
  have fields: "list_all (\<lambda>kc. is_clock_entry (snd kc)) (clock_entries sample_clocks)"
    by code_simp
  have some: "clock_entries sample_clocks \<noteq> []"
    by code_simp
  have ok: "verify_json sample_clocks 0"
    by code_simp
  note table = clock_header[OF fetch, of False, THEN conjunct1, rule_format]
  note json = clock_header[OF fetch, of True, THEN conjunct2, rule_format]
  have t: "prefix ''Clocks\<newline>''
     (stdout_of (fst (print_clock_info sample_env (Device ''0000:d8:00.0'') False)))"
    using table fields by blast
  have j: "prefix [CHR ''{'', newline]
     (stdout_of (fst (print_clock_info sample_env (Device ''0000:d8:00.0'') True)))"
    using json some ok by blast
  have n: "\<not> prefix ''Clocks\<newline>''
     (stdout_of (fst (print_clock_info sample_env (Device ''0000:d8:00.0'') True)))"
    using json some ok by blast
  show ?thesis
    by (intro conjI fetch fields some ok t j n)
qed

section \<open>The preemption telemetry report\<close>

text \<open>
  Claim C7 speaks of every telemetry set with N contexts. With no context (N = 0) the
  guard of lines 58 to 62 prints the line " No hardware contexts running on device"
  and returns: no table is built or printed, so there is no header row either.
\<close>

theorem telemetry_no_contexts_counterexample:
  "preemption_telemetry_info idle_env (Device ''0000:d8:00.0'') = Inr no_contexts \<and>
   length (contexts no_contexts) = 0 \<and>
   print_preemption_telemetry idle_env (Device ''0000:d8:00.0'') False =
     ([Preemption_telemetry_info (Device ''0000:d8:00.0''),
       Cout ''Premption Telemetry Data\<newline> No hardware contexts running on device\<newline>\<newline>''],
      Inr ()) \<and>
   \<not> sublist ''User Task''
       (stdout_of (fst (print_preemption_telemetry idle_env (Device ''0000:d8:00.0'') False)))"
  by code_simp

text \<open>
  Claim C7, amended. When the fetched telemetry has N contexts with N at least 1 (each
  with its six fields) and JSON was not asked for, the renderer prints, after its
  header line, the table with the six columns User Task, Ctx ID, Set Hints, Unset
  Hints, Checkpoint Events, Frame Boundary Events in that order and N rows, one per
  context in the order of the fetched collection, laid out with a two-space margin.
\<close>

theorem telemetry_table:
  assumes "preemption_telemetry_info env dev = Inr telemetry_pt"
    and "contexts telemetry_pt \<noteq> []"
    and "list_all (\<lambda>kc. is_context (snd kc)) (contexts telemetry_pt)"
  shows "print_preemption_telemetry env dev False =
           ([Preemption_telemetry_info dev,
             ToString \<lparr>headers = preempt_headers,
                       entries = map (\<lambda>kc. context_row (snd kc)) (contexts telemetry_pt)\<rparr> ''  '',
             Cout (''Premption Telemetry Data\<newline>'' @
                   toString env
                     \<lparr>headers = preempt_headers,
                      entries = map (\<lambda>kc. context_row (snd kc)) (contexts telemetry_pt)\<rparr>
                     ''  '' @ ''\<newline>'')],
            Inr ())
         \<and> length (map (\<lambda>kc. context_row (snd kc)) (contexts telemetry_pt)) =
             length (contexts telemetry_pt)
         \<and> map fst preempt_headers =
             [''User Task'', ''Ctx ID'', ''Set Hints'', ''Unset Hints'', ''Checkpoint Events'',
              ''Frame Boundary Events'']
         \<and> (\<forall>kc \<in> set (contexts telemetry_pt).
               context_row (snd kc) =
                 [field (snd kc) ''user_task'', field (snd kc) ''slot_index'',
                  field (snd kc) ''preemption_flag_set'', field (snd kc) ''preemption_flag_unset'',
                  field (snd kc) ''preemption_checkpoint_event'',
                  field (snd kc) ''preemption_frame_boundary_events''])"
proof -
  have run: "print_preemption_telemetry env dev False =
           ([Preemption_telemetry_info dev,
             ToString \<lparr>headers = preempt_headers,
                       entries = map (\<lambda>kc. context_row (snd kc)) (contexts telemetry_pt)\<rparr> ''  '',
             Cout (''Premption Telemetry Data\<newline>'' @
                   toString env
                     \<lparr>headers = preempt_headers,
                      entries = map (\<lambda>kc. context_row (snd kc)) (contexts telemetry_pt)\<rparr>
                     ''  '' @ ''\<newline>'')],
            Inr ())"
    using assms(1,2) add_entries_ok[OF assms(3), of "Table2D preempt_headers"]
    by (simp add: print_preemption_telemetry_def contexts_def ptree_empty_def Table2D_def Let_def)
  have hdr: "map fst preempt_headers =
             [''User Task'', ''Ctx ID'', ''Set Hints'', ''Unset Hints'', ''Checkpoint Events'',
              ''Frame Boundary Events'']"
    by (simp add: preempt_headers_def)
  have row: "\<forall>kc \<in> set (contexts telemetry_pt).
               context_row (snd kc) =
                 [field (snd kc) ''user_task'', field (snd kc) ''slot_index'',
                  field (snd kc) ''preemption_flag_set'', field (snd kc) ''preemption_flag_unset'',
                  field (snd kc) ''preemption_checkpoint_event'',
                  field (snd kc) ''preemption_frame_boundary_events'']"
    by (simp add: context_row_def)
  show ?thesis
    by (intro conjI run length_map hdr row)
qed

theorem telemetry_table_witness:
  "preemption_telemetry_info sample_env (Device ''0000:d8:00.0'') = Inr sample_telemetry \<and>
   contexts sample_telemetry \<noteq> [] \<and>
   list_all (\<lambda>kc. is_context (snd kc)) (contexts sample_telemetry) \<and>
   length (contexts sample_telemetry) = 2 \<and>
   print_preemption_telemetry sample_env (Device ''0000:d8:00.0'') False =
     ([Preemption_telemetry_info (Device ''0000:d8:00.0''),
       ToString \<lparr>headers = preempt_headers,
                 entries = [[''0'', ''7'', ''4'', ''3'', ''2'', ''1''],
                            [''1'', ''9'', ''4'', ''3'', ''2'', ''1'']]\<rparr> ''  '',
       Cout (''Premption Telemetry Data\<newline>'' @
             toString sample_env
               \<lparr>headers = preempt_headers,
                entries = [[''0'', ''7'', ''4'', ''3'', ''2'', ''1''],
                           [''1'', ''9'', ''4'', ''3'', ''2'', ''1'']]\<rparr>
               ''  '' @ ''\<newline>'')],
      Inr ())"
proof -
  have fetch:
    "preemption_telemetry_info sample_env (Device ''0000:d8:00.0'') = Inr sample_telemetry"
    by (simp add: sample_env_def)
  have some: "contexts sample_telemetry \<noteq> []"
    by code_simp
  have fields: "list_all (\<lambda>kc. is_context (snd kc)) (contexts sample_telemetry)"
    by code_simp
  have two: "length (contexts sample_telemetry) = 2"
    by code_simp
  have rows: "map (\<lambda>kc. context_row (snd kc)) (contexts sample_telemetry) =
                [[''0'', ''7'', ''4'', ''3'', ''2'', ''1''],
                 [''1'', ''9'', ''4'', ''3'', ''2'', ''1'']]"
    by code_simp
  have run: "print_preemption_telemetry sample_env (Device ''0000:d8:00.0'') False =
     ([Preemption_telemetry_info (Device ''0000:d8:00.0''),
       ToString \<lparr>headers = preempt_headers,
                 entries = [[''0'', ''7'', ''4'', ''3'', ''2'', ''1''],
                            [''1'', ''9'', ''4'', ''3'', ''2'', ''1'']]\<rparr> ''  '',
       Cout (''Premption Telemetry Data\<newline>'' @
             toString sample_env
               \<lparr>headers = preempt_headers,
                entries = [[''0'', ''7'', ''4'', ''3'', ''2'', ''1''],
                           [''1'', ''9'', ''4'', ''3'', ''2'', ''1'']]\<rparr>
               ''  '' @ ''\<newline>'')],
      Inr ())"
    using telemetry_table[OF fetch some fields, THEN conjunct1]
    by (simp only: rows)
  show ?thesis
    by (intro conjI fetch some fields two run)
qed

section \<open>The command\<close>

text \<open>
  Claim C9. When \<open>--help\<close> is among the options, the command prints usage and returns
  successfully; apart from logging the options it does nothing else: no parsing, no
  device lookup, no report.
\<close>

theorem help_option:
  assumes "''--help'' \<in> set options"
  shows "execute env options = (verbose_options options @ [PrintHelp], Inr ())
       \<and> (\<forall>e \<in> set (fst (execute env options)). e = PrintHelp \<or> (\<exists>shown. e = Verbose shown))"
  using assms by (auto simp: execute_def dest: verbose_options_events)

theorem help_option_witness:
  "''--help'' \<in> set [''clocks'', ''--json'', ''--help''] \<and>
   execute sample_env [''clocks'', ''--json'', ''--help''] =
     ([Verbose ''SubCommand option: report'', Verbose ''Option(s):'', Verbose '' clocks'',
       Verbose '' --json'', Verbose '' --help'', PrintHelp], Inr ())"
proof -
  have h: "''--help'' \<in> set [''clocks'', ''--json'', ''--help'']" by simp
  have v: "verbose_options [''clocks'', ''--json'', ''--help''] @ [PrintHelp] =
     [Verbose ''SubCommand option: report'', Verbose ''Option(s):'', Verbose '' clocks'',
       Verbose '' --json'', Verbose '' --help'', PrintHelp]"
    by (simp add: verbose_options_def)
  have run: "execute sample_env [''clocks'', ''--json'', ''--help''] =
     ([Verbose ''SubCommand option: report'', Verbose ''Option(s):'', Verbose '' clocks'',
       Verbose '' --json'', Verbose '' --help'', PrintHelp], Inr ())"
    using help_option[OF h, of sample_env, THEN conjunct1] by (simp only: v)
  show ?thesis
    by (intro conjI h run)
qed

text \<open>
  Claim C8. When parsing leaves the mode empty (and did not set the help flag), the
  command writes the "required argument" error to standard error, prints usage and
  cancels; no device lookup is attempted.
\<close>

theorem mode_missing:
  assumes "''--help'' \<notin> set options"
    and "process_arguments env options = Inr m"
    and "\<not> m_help m"
    and "m_action m = []"
  shows "execute env options =
           (verbose_options options @
            [Process_arguments options,
             Cerr ''ERROR: the required argument for option '--report' is missing\<newline>'',
             PrintHelp],
            Inl Operation_canceled)
       \<and> (\<forall>ident in_user. Get_device ident in_user \<notin> set (fst (execute env options)))"
  using assms by (auto simp: execute_def execute_parsed_def dest: verbose_options_events)

theorem mode_missing_witness:
  "''--help'' \<notin> set [''--json''] \<and>
   process_arguments sample_env [''--json''] =
     Inr \<lparr>m_device = [], m_action = [], m_help = False, m_json = True\<rparr> \<and>
   execute sample_env [''--json''] =
     ([Verbose ''SubCommand option: report'', Verbose ''Option(s):'', Verbose '' --json'',
       Process_arguments [''--json''],
       Cerr ''ERROR: the required argument for option '--report' is missing\<newline>'',
       PrintHelp],
      Inl Operation_canceled)"
proof -
  have h: "''--help'' \<notin> set [''--json'']" by simp
  have parsed: "process_arguments sample_env [''--json''] =
     Inr \<lparr>m_device = [], m_action = [], m_help = False, m_json = True\<rparr>"
    by (simp add: sample_env_def)
  have nh: "\<not> m_help \<lparr>m_device = [], m_action = [], m_help = False, m_json = True\<rparr>"
    by simp
  have na: "m_action \<lparr>m_device = [], m_action = [], m_help = False, m_json = True\<rparr> = []"
    by simp
  have v: "verbose_options [''--json''] @
            [Process_arguments [''--json''],
             Cerr ''ERROR: the required argument for option '--report' is missing\<newline>'',
             PrintHelp] =
     [Verbose ''SubCommand option: report'', Verbose ''Option(s):'', Verbose '' --json'',
       Process_arguments [''--json''],
       Cerr ''ERROR: the required argument for option '--report' is missing\<newline>'',
       PrintHelp]"
    by (simp add: verbose_options_def)
  have run: "execute sample_env [''--json''] =
     ([Verbose ''SubCommand option: report'', Verbose ''Option(s):'', Verbose '' --json'',
       Process_arguments [''--json''],
       Cerr ''ERROR: the required argument for option '--report' is missing\<newline>'',
       PrintHelp],
      Inl Operation_canceled)"
    using mode_missing[OF h parsed nh na, THEN conjunct1] by (simp only: v)
  show ?thesis
    by (intro conjI h parsed run)
qed

text \<open>
  Claim C10. Whenever the command looks a device up, the identifier it passes is the
  lower-cased \<open>m_device\<close> (in the user domain), and a run that gets past the mode
  check does look it up. Two identifiers that differ only in letter case therefore
  lead to the same lookup and to the same run.
\<close>

theorem device_id_lower_cased:
  "(Get_device ident in_user \<in> set (fst (execute env options)) \<longrightarrow>
      (\<exists>m. process_arguments env options = Inr m \<and> ident = to_lower_copy (m_device m) \<and>
           in_user))
   \<and> (''--help'' \<notin> set options \<and> process_arguments env options = Inr m \<and> \<not> m_help m \<and>
      m_action m \<noteq> [] \<longrightarrow>
        Get_device (to_lower_copy (m_device m)) True \<in> set (fst (execute env options)))
   \<and> (iequals d1 d2 \<longrightarrow>
        to_lower_copy d1 = to_lower_copy d2 \<and>
        execute_parsed env (m\<lparr>m_device := d1\<rparr>) = execute_parsed env (m\<lparr>m_device := d2\<rparr>))"
proof (intro conjI impI)
  assume g: "Get_device ident in_user \<in> set (fst (execute env options))"
  show "\<exists>m. process_arguments env options = Inr m \<and> ident = to_lower_copy (m_device m) \<and>
           in_user"
  proof (cases "process_arguments env options")
    case (Inl e)
    with g show ?thesis
      by (auto simp: execute_def split: if_splits dest: verbose_options_events)
  next
    case (Inr m')
    have "Get_device ident in_user \<in> set (fst (execute_parsed env m'))"
      using g Inr
      by (auto simp: execute_def Let_def split: if_splits dest: verbose_options_events)
    then have "ident = to_lower_copy (m_device m') \<and> in_user"
      using dispatch_no_get_device[of ident in_user env m']
      by (auto simp: execute_parsed_def Let_def split: if_splits sum.splits)
    with Inr show ?thesis by blast
  qed
next
  assume "''--help'' \<notin> set options \<and> process_arguments env options = Inr m \<and> \<not> m_help m \<and>
      m_action m \<noteq> []"
  then show "Get_device (to_lower_copy (m_device m)) True \<in> set (fst (execute env options))"
    by (auto simp: execute_def execute_parsed_def Let_def split: sum.splits)
next
  assume i: "iequals d1 d2"
  then show l: "to_lower_copy d1 = to_lower_copy d2" by (simp add: iequals_to_lower)
  show "execute_parsed env (m\<lparr>m_device := d1\<rparr>) = execute_parsed env (m\<lparr>m_device := d2\<rparr>)"
    by (rule execute_parsed_device[OF l])
qed

theorem device_id_lower_cased_witness:
  "Get_device ''0000:d8:00.0'' True
     \<in> set (fst (execute sample_env [''clocks'', ''-d'', ''0000:D8:00.0''])) \<and>
   process_arguments sample_env [''clocks'', ''-d'', ''0000:D8:00.0''] =
     Inr \<lparr>m_device = ''0000:D8:00.0'', m_action = ''clocks'', m_help = False,
          m_json = False\<rparr> \<and>
   to_lower_copy ''0000:D8:00.0'' = ''0000:d8:00.0'' \<and>
   iequals ''0000:D8:00.0'' ''0000:d8:00.0'' \<and>
   execute_parsed sample_env
     (\<lparr>m_device = [], m_action = ''clocks'', m_help = False, m_json = False\<rparr>
        \<lparr>m_device := ''0000:D8:00.0''\<rparr>) =
   execute_parsed sample_env
     (\<lparr>m_device = [], m_action = ''clocks'', m_help = False, m_json = False\<rparr>
        \<lparr>m_device := ''0000:d8:00.0''\<rparr>)"
proof -
  let ?m = "\<lparr>m_device = ''0000:D8:00.0'', m_action = ''clocks'', m_help = False,
             m_json = False\<rparr>"
  let ?base = "\<lparr>m_device = [], m_action = ''clocks'', m_help = False, m_json = False\<rparr>"
  have parsed: "process_arguments sample_env [''clocks'', ''-d'', ''0000:D8:00.0''] = Inr ?m"
    by (simp add: sample_env_def)
  have lower: "to_lower_copy ''0000:D8:00.0'' = ''0000:d8:00.0''"
    by code_simp
  have same: "iequals ''0000:D8:00.0'' ''0000:d8:00.0''"
    by code_simp
  have reach: "''--help'' \<notin> set [''clocks'', ''-d'', ''0000:D8:00.0''] \<and>
      process_arguments sample_env [''clocks'', ''-d'', ''0000:D8:00.0''] = Inr ?m \<and>
      \<not> m_help ?m \<and> m_action ?m \<noteq> []"
    using parsed by simp
  have "Get_device (to_lower_copy (m_device ?m)) True
          \<in> set (fst (execute sample_env [''clocks'', ''-d'', ''0000:D8:00.0'']))"
    using device_id_lower_cased[of _ _ sample_env "[''clocks'', ''-d'', ''0000:D8:00.0'']" ?m,
            THEN conjunct2, THEN conjunct1, rule_format, OF reach] .
  then have looked: "Get_device ''0000:d8:00.0'' True
          \<in> set (fst (execute sample_env [''clocks'', ''-d'', ''0000:D8:00.0'']))"
    using lower by simp
  have runs: "execute_parsed sample_env (?base\<lparr>m_device := ''0000:D8:00.0''\<rparr>) =
              execute_parsed sample_env (?base\<lparr>m_device := ''0000:d8:00.0''\<rparr>)"
    using device_id_lower_cased[of _ _ sample_env _ ?base "''0000:D8:00.0''" "''0000:d8:00.0''",
            THEN conjunct2, THEN conjunct2, rule_format, OF same, THEN conjunct2] .
  show ?thesis
    by (intro conjI looked parsed lower same runs)
qed

text \<open>
  Claim C4. In any letter-casing of "clocks" the dispatch runs the clock renderer and
  not the telemetry renderer; in any letter-casing of "preemption" it runs the
  telemetry renderer and not the clock renderer.
\<close>

theorem dispatch_any_case:
  "(casing_of ''clocks'' (m_action m) \<longrightarrow>
      execute_dispatch env m dev = catch_xrt_error env (print_clock_info env dev (m_json m)) \<and>
      hd (fst (execute_dispatch env m dev)) = Get_clock_info dev \<and>
      (\<forall>d. Preemption_telemetry_info d \<notin> set (fst (execute_dispatch env m dev))))
   \<and> (casing_of ''preemption'' (m_action m) \<longrightarrow>
      execute_dispatch env m dev =
        catch_xrt_error env (print_preemption_telemetry env dev (m_json m)) \<and>
      hd (fst (execute_dispatch env m dev)) = Preemption_telemetry_info dev \<and>
      (\<forall>d. Get_clock_info d \<notin> set (fst (execute_dispatch env m dev))))
   \<and> (''--help'' \<notin> set options \<and> process_arguments env options = Inr m \<and> \<not> m_help m \<and>
      get_device env (to_lower_copy (m_device m)) True = Inr dev \<longrightarrow>
        (casing_of ''clocks'' (m_action m) \<longrightarrow>
           Get_clock_info dev \<in> set (fst (execute env options)) \<and>
           (\<forall>d. Preemption_telemetry_info d \<notin> set (fst (execute env options)))) \<and>
        (casing_of ''preemption'' (m_action m) \<longrightarrow>
           Preemption_telemetry_info dev \<in> set (fst (execute env options)) \<and>
           (\<forall>d. Get_clock_info d \<notin> set (fst (execute env options)))))"
proof -
  have clocks: "execute_dispatch env m dev =
                  catch_xrt_error env (print_clock_info env dev (m_json m))"
      "hd (fst (execute_dispatch env m dev)) = Get_clock_info dev"
      "\<forall>d. Preemption_telemetry_info d \<notin> set (fst (execute_dispatch env m dev))"
      "Get_clock_info dev \<in> set (fst (execute_dispatch env m dev))"
    if c: "casing_of ''clocks'' (m_action m)"
  proof -
    show run: "execute_dispatch env m dev =
                 catch_xrt_error env (print_clock_info env dev (m_json m))"
      by (rule dispatch_clocks[OF c])
    show "hd (fst (execute_dispatch env m dev)) = Get_clock_info dev"
      by (simp add: run catch_xrt_error_hd print_clock_info_nonempty print_clock_info_hd)
    show "\<forall>d. Preemption_telemetry_info d \<notin> set (fst (execute_dispatch env m dev))"
      using catch_xrt_error_trace[of env "print_clock_info env dev (m_json m)"]
        print_clock_info_trace[of env dev "m_json m"]
      by (auto simp: run)
    show "Get_clock_info dev \<in> set (fst (execute_dispatch env m dev))"
      using catch_xrt_error_trace[of env "print_clock_info env dev (m_json m)"]
        print_clock_info_trace[of env dev "m_json m"]
      by (auto simp: run)
  qed
  have preemption: "execute_dispatch env m dev =
                  catch_xrt_error env (print_preemption_telemetry env dev (m_json m))"
      "hd (fst (execute_dispatch env m dev)) = Preemption_telemetry_info dev"
      "\<forall>d. Get_clock_info d \<notin> set (fst (execute_dispatch env m dev))"
      "Preemption_telemetry_info dev \<in> set (fst (execute_dispatch env m dev))"
    if p: "casing_of ''preemption'' (m_action m)"
  proof -
    show run: "execute_dispatch env m dev =
                 catch_xrt_error env (print_preemption_telemetry env dev (m_json m))"
      by (rule dispatch_preemption[OF p])
    show "hd (fst (execute_dispatch env m dev)) = Preemption_telemetry_info dev"
      by (simp add: run catch_xrt_error_hd print_preemption_telemetry_nonempty
            print_preemption_telemetry_hd)
    show "\<forall>d. Get_clock_info d \<notin> set (fst (execute_dispatch env m dev))"
      using catch_xrt_error_trace[of env "print_preemption_telemetry env dev (m_json m)"]
        print_preemption_telemetry_trace[of env dev "m_json m"]
      by (auto simp: run)
    show "Preemption_telemetry_info dev \<in> set (fst (execute_dispatch env m dev))"
      using catch_xrt_error_trace[of env "print_preemption_telemetry env dev (m_json m)"]
        print_preemption_telemetry_trace[of env dev "m_json m"]
      by (auto simp: run)
  qed
  have command: "fst (execute env options) =
                   verbose_options options @
                   [Process_arguments options, Get_device (to_lower_copy (m_device m)) True] @
                   fst (execute_dispatch env m dev)"
    if r: "''--help'' \<notin> set options \<and> process_arguments env options = Inr m \<and> \<not> m_help m \<and>
           get_device env (to_lower_copy (m_device m)) True = Inr dev"
      and a: "m_action m \<noteq> []"
    using r a by (simp add: execute_def execute_parsed_def Let_def)
  have named: "m_action m \<noteq> []"
    if "casing_of ''clocks'' (m_action m) \<or> casing_of ''preemption'' (m_action m)"
    using that by (auto simp: casing_of_def to_lower_copy_def)
  show ?thesis
  proof (intro conjI impI)
    assume r: "''--help'' \<notin> set options \<and> process_arguments env options = Inr m \<and>
               \<not> m_help m \<and> get_device env (to_lower_copy (m_device m)) True = Inr dev"
       and c: "casing_of ''clocks'' (m_action m)"
    show "Get_clock_info dev \<in> set (fst (execute env options))"
      using clocks(4)[OF c] by (simp add: command[OF r named] c)
    show "\<forall>d. Preemption_telemetry_info d \<notin> set (fst (execute env options))"
      using clocks(3)[OF c]
      by (auto simp: command[OF r named] c dest: verbose_options_events)
  next
    assume r: "''--help'' \<notin> set options \<and> process_arguments env options = Inr m \<and>
               \<not> m_help m \<and> get_device env (to_lower_copy (m_device m)) True = Inr dev"
       and p: "casing_of ''preemption'' (m_action m)"
    show "Preemption_telemetry_info dev \<in> set (fst (execute env options))"
      using preemption(4)[OF p] by (simp add: command[OF r named] p)
    show "\<forall>d. Get_clock_info d \<notin> set (fst (execute env options))"
      using preemption(3)[OF p]
      by (auto simp: command[OF r named] p dest: verbose_options_events)
  qed (erule clocks preemption)+
qed

theorem dispatch_any_case_witness:
  "casing_of ''clocks'' ''CLOCKS'' \<and> casing_of ''clocks'' ''Clocks'' \<and>
   casing_of ''preemption'' ''Preemption'' \<and> casing_of ''preemption'' ''preemption'' \<and>
   hd (fst (execute_dispatch sample_env
              \<lparr>m_device = [], m_action = ''CLOCKS'', m_help = False, m_json = False\<rparr>
              (Device ''0000:d8:00.0''))) = Get_clock_info (Device ''0000:d8:00.0'') \<and>
   hd (fst (execute_dispatch sample_env
              \<lparr>m_device = [], m_action = ''Clocks'', m_help = False, m_json = True\<rparr>
              (Device ''0000:d8:00.0''))) = Get_clock_info (Device ''0000:d8:00.0'') \<and>
   hd (fst (execute_dispatch sample_env
              \<lparr>m_device = [], m_action = ''Preemption'', m_help = False, m_json = False\<rparr>
              (Device ''0000:d8:00.0''))) =
     Preemption_telemetry_info (Device ''0000:d8:00.0'') \<and>
   hd (fst (execute_dispatch sample_env
              \<lparr>m_device = [], m_action = ''preemption'', m_help = False, m_json = True\<rparr>
              (Device ''0000:d8:00.0''))) =
     Preemption_telemetry_info (Device ''0000:d8:00.0'') \<and>
   process_arguments sample_env [''CLOCKS''] =
     Inr \<lparr>m_device = [], m_action = ''CLOCKS'', m_help = False, m_json = False\<rparr> \<and>
   Get_clock_info (Device ''0000:d8:00.0'') \<in> set (fst (execute sample_env [''CLOCKS'']))"
proof -
  let ?dev = "Device ''0000:d8:00.0''"
  let ?upper = "\<lparr>m_device = [], m_action = ''CLOCKS'', m_help = False, m_json = False\<rparr>"
  have c1: "casing_of ''clocks'' ''CLOCKS''" by code_simp
  have c2: "casing_of ''clocks'' ''Clocks''" by code_simp
  have p1: "casing_of ''preemption'' ''Preemption''" by code_simp
  have p2: "casing_of ''preemption'' ''preemption''" by code_simp
  have r1: "hd (fst (execute_dispatch sample_env ?upper ?dev)) = Get_clock_info ?dev"
    by (rule dispatch_any_case[of ?upper sample_env ?dev, THEN conjunct1, THEN mp,
          THEN conjunct2, THEN conjunct1]) (simp add: c1)
  have r2: "hd (fst (execute_dispatch sample_env
              \<lparr>m_device = [], m_action = ''Clocks'', m_help = False, m_json = True\<rparr>
              ?dev)) = Get_clock_info ?dev"
    by (rule dispatch_any_case[of "\<lparr>m_device = [], m_action = ''Clocks'', m_help = False,
          m_json = True\<rparr>" sample_env ?dev, THEN conjunct1, THEN mp,
          THEN conjunct2, THEN conjunct1]) (simp add: c2)
  have r3: "hd (fst (execute_dispatch sample_env
              \<lparr>m_device = [], m_action = ''Preemption'', m_help = False, m_json = False\<rparr>
              ?dev)) = Preemption_telemetry_info ?dev"
    by (rule dispatch_any_case[of "\<lparr>m_device = [], m_action = ''Preemption'',
          m_help = False, m_json = False\<rparr>" sample_env ?dev, THEN conjunct2, THEN conjunct1,
          THEN mp, THEN conjunct2, THEN conjunct1]) (simp add: p1)
  have r4: "hd (fst (execute_dispatch sample_env
              \<lparr>m_device = [], m_action = ''preemption'', m_help = False, m_json = True\<rparr>
              ?dev)) = Preemption_telemetry_info ?dev"
    by (rule dispatch_any_case[of "\<lparr>m_device = [], m_action = ''preemption'',
          m_help = False, m_json = True\<rparr>" sample_env ?dev, THEN conjunct2, THEN conjunct1,
          THEN mp, THEN conjunct2, THEN conjunct1]) (simp add: p2)
  have parsed: "process_arguments sample_env [''CLOCKS''] = Inr ?upper"
    by (simp add: sample_env_def)
  have reach: "''--help'' \<notin> set [''CLOCKS''] \<and>
      process_arguments sample_env [''CLOCKS''] = Inr ?upper \<and> \<not> m_help ?upper \<and>
      get_device sample_env (to_lower_copy (m_device ?upper)) True = Inr ?dev"
    using parsed by (simp add: sample_env_def to_lower_copy_def)
  have named: "casing_of ''clocks'' (m_action ?upper)"
    using c1 by simp
  have run: "Get_clock_info ?dev \<in> set (fst (execute sample_env [''CLOCKS'']))"
    by (rule dispatch_any_case[of ?upper sample_env ?dev "[''CLOCKS'']", THEN conjunct2,
          THEN conjunct2, THEN mp, OF reach, THEN conjunct1, THEN mp, OF named,
          THEN conjunct1])
  show ?thesis
    by (intro conjI c1 c2 p1 p2 r1 r2 r3 r4 parsed run)
qed

text \<open>
  Claim C3 speaks of every report name that is not "clocks" or "preemption" in some
  letter case. The empty name is one, and it never reaches the dispatch: the check of
  lines 145 to 149 answers it with the "required argument" error, so no "Invalid report
  value" diagnostic is written. Here the command is run with no argument at all, and
  with the empty string as its only argument.
\<close>

theorem empty_report_name_counterexample:
  "process_arguments sample_env [] =
     Inr \<lparr>m_device = [], m_action = [], m_help = False, m_json = False\<rparr> \<and>
   \<not> casing_of ''clocks'' [] \<and> \<not> casing_of ''preemption'' [] \<and>
   execute sample_env [] =
     ([Verbose ''SubCommand option: report'', Verbose ''Option(s):'', Process_arguments [],
       Cerr ''ERROR: the required argument for option '--report' is missing\<newline>'',
       PrintHelp],
      Inl Operation_canceled) \<and>
   \<not> sublist ''Invalid report value'' (concat (stderr_of (fst (execute sample_env [])))) \<and>
   process_arguments sample_env [[]] =
     Inr \<lparr>m_device = [], m_action = [], m_help = False, m_json = False\<rparr> \<and>
   stderr_of (fst (execute sample_env [[]])) =
     [''ERROR: the required argument for option '--report' is missing\<newline>'']"
  by code_simp

text \<open>
  Claim C3, amended. For every report name that is not a letter-casing of "clocks" or
  "preemption", the dispatch writes one diagnostic "ERROR: Invalid report value:
  '<name>'" to standard error, prints usage, and cancels, running no renderer. The whole
  command does so when the name is not empty, the options parse without a help request
  and the device is resolved. The diagnostic contains the message with the name as
  soon as \<open>what()\<close> of an error contains the message it was built from.
\<close>

theorem invalid_report_value:
  assumes "\<not> casing_of ''clocks'' name"
    and "\<not> casing_of ''preemption'' name"
    and "m_action m = name"
  shows "execute_dispatch env m dev =
           ([Cerr (invalid_report_diagnostic env name), PrintHelp], Inl Operation_canceled)
       \<and> (''--help'' \<notin> set options \<and> process_arguments env options = Inr m \<and> \<not> m_help m \<and>
          name \<noteq> [] \<and> get_device env (to_lower_copy (m_device m)) True = Inr dev \<longrightarrow>
            execute env options =
              (verbose_options options @
               [Process_arguments options, Get_device (to_lower_copy (m_device m)) True,
                Cerr (invalid_report_diagnostic env name), PrintHelp],
               Inl Operation_canceled) \<and>
            stderr_of (fst (execute env options)) = [invalid_report_diagnostic env name] \<and>
            (\<forall>d. Get_clock_info d \<notin> set (fst (execute env options)) \<and>
                 Preemption_telemetry_info d \<notin> set (fst (execute env options))))
       \<and> ((\<forall>msg. sublist msg (what env (Xrt_error msg))) \<longrightarrow>
            sublist (''Invalid report value: '' @ [squote] @ name @ [squote])
                    (invalid_report_diagnostic env name))"
proof (intro conjI impI)
  show d: "execute_dispatch env m dev =
           ([Cerr (invalid_report_diagnostic env name), PrintHelp], Inl Operation_canceled)"
    using dispatch_invalid[of m env dev] assms by simp
  have err: "stderr_of (verbose_options options) = []"
    by (induction options) (simp_all add: verbose_options_def)
  have errs: "stderr_of (xs @ ys) = stderr_of xs @ stderr_of ys" for xs ys
    by (induction xs rule: stderr_of.induct) simp_all
  {
    assume r: "''--help'' \<notin> set options \<and> process_arguments env options = Inr m \<and> \<not> m_help m \<and>
          name \<noteq> [] \<and> get_device env (to_lower_copy (m_device m)) True = Inr dev"
    show run: "execute env options =
              (verbose_options options @
               [Process_arguments options, Get_device (to_lower_copy (m_device m)) True,
                Cerr (invalid_report_diagnostic env name), PrintHelp],
               Inl Operation_canceled)"
      using r assms(3) d by (simp add: execute_def execute_parsed_def)
    show "stderr_of (fst (execute env options)) = [invalid_report_diagnostic env name]"
      by (simp add: run errs err)
    show "\<forall>d. Get_clock_info d \<notin> set (fst (execute env options)) \<and>
                 Preemption_telemetry_info d \<notin> set (fst (execute env options))"
      by (auto simp: run dest: verbose_options_events)
  }
  {
    assume w: "\<forall>msg. sublist msg (what env (Xrt_error msg))"
    have a: "sublist (''Invalid report value: '' @ [squote] @ name @ [squote])
               (''Invalid report value: '' @ [squote] @ name @ [squote, newline])"
      unfolding sublist_def by (rule exI[of _ "[]"], rule exI[of _ "[newline]"]) simp
    have b: "sublist (''Invalid report value: '' @ [squote] @ name @ [squote, newline])
               (what env (Xrt_error (''Invalid report value: '' @ [squote] @ name @ [squote, newline])))"
      using w by blast
    have c: "sublist (what env (Xrt_error (''Invalid report value: '' @ [squote] @ name @ [squote, newline])))
               (invalid_report_diagnostic env name)"
      unfolding invalid_report_diagnostic_def sublist_def
      by (rule exI[of _ "[newline] @ ''ERROR: ''"], rule exI[of _ "[newline]"]) simp
    show "sublist (''Invalid report value: '' @ [squote] @ name @ [squote])
                    (invalid_report_diagnostic env name)"
      using a b c by (meson sublist_order.order_trans)
  }
qed

theorem invalid_report_value_witness:
  "\<not> casing_of ''clocks'' ''bogus'' \<and> \<not> casing_of ''preemption'' ''bogus'' \<and>
   process_arguments sample_env [''bogus''] =
     Inr \<lparr>m_device = [], m_action = ''bogus'', m_help = False, m_json = False\<rparr> \<and>
   get_device sample_env [] True = Inr (Device ''0000:d8:00.0'') \<and>
   invalid_report_diagnostic sample_env ''bogus'' =
     [newline] @ ''ERROR: Invalid report value: '' @ [squote] @ ''bogus'' @ [squote] @
     [newline, newline] \<and>
   execute sample_env [''bogus''] =
     ([Verbose ''SubCommand option: report'', Verbose ''Option(s):'', Verbose '' bogus'',
       Process_arguments [''bogus''], Get_device [] True,
       Cerr (invalid_report_diagnostic sample_env ''bogus''), PrintHelp],
      Inl Operation_canceled) \<and>
   stderr_of (fst (execute sample_env [''bogus''])) =
     [invalid_report_diagnostic sample_env ''bogus''] \<and>
   sublist (''Invalid report value: '' @ [squote] @ ''bogus'' @ [squote])
           (invalid_report_diagnostic sample_env ''bogus'')"
proof -
  let ?m = "\<lparr>m_device = [], m_action = ''bogus'', m_help = False, m_json = False\<rparr>"
  have n1: "\<not> casing_of ''clocks'' ''bogus''" by code_simp
  have n2: "\<not> casing_of ''preemption'' ''bogus''" by code_simp
  have act: "m_action ?m = ''bogus''" by simp
  have parsed: "process_arguments sample_env [''bogus''] = Inr ?m"
    by (simp add: sample_env_def)
  have dev: "get_device sample_env [] True = Inr (Device ''0000:d8:00.0'')"
    by (simp add: sample_env_def)
  have diag: "invalid_report_diagnostic sample_env ''bogus'' =
     [newline] @ ''ERROR: Invalid report value: '' @ [squote] @ ''bogus'' @ [squote] @
     [newline, newline]"
    by (simp add: invalid_report_diagnostic_def sample_env_def)
  have reach: "''--help'' \<notin> set [''bogus''] \<and> process_arguments sample_env [''bogus''] = Inr ?m \<and>
      \<not> m_help ?m \<and> ''bogus'' \<noteq> [] \<and>
      get_device sample_env (to_lower_copy (m_device ?m)) True = Inr (Device ''0000:d8:00.0'')"
    using parsed dev by (simp add: to_lower_copy_def)
  have wh: "\<forall>msg. sublist msg (what sample_env (Xrt_error msg))"
    by (simp add: sample_env_def)
  note T = invalid_report_value[OF n1 n2 act, of sample_env "Device ''0000:d8:00.0''"
             "[''bogus'']"]
  note C = T[THEN conjunct2, THEN conjunct1, rule_format, OF reach]
  have v: "verbose_options [''bogus''] @
               [Process_arguments [''bogus''], Get_device (to_lower_copy (m_device ?m)) True,
                Cerr (invalid_report_diagnostic sample_env ''bogus''), PrintHelp] =
     [Verbose ''SubCommand option: report'', Verbose ''Option(s):'', Verbose '' bogus'',
       Process_arguments [''bogus''], Get_device [] True,
       Cerr (invalid_report_diagnostic sample_env ''bogus''), PrintHelp]"
    by (simp add: verbose_options_def to_lower_copy_def)
  have run: "execute sample_env [''bogus''] =
     ([Verbose ''SubCommand option: report'', Verbose ''Option(s):'', Verbose '' bogus'',
       Process_arguments [''bogus''], Get_device [] True,
       Cerr (invalid_report_diagnostic sample_env ''bogus''), PrintHelp],
      Inl Operation_canceled)"
    using C[THEN conjunct1] by (simp only: v)
  have one: "stderr_of (fst (execute sample_env [''bogus''])) =
     [invalid_report_diagnostic sample_env ''bogus'']"
    by (rule C[THEN conjunct2, THEN conjunct1])
  have sub: "sublist (''Invalid report value: '' @ [squote] @ ''bogus'' @ [squote])
           (invalid_report_diagnostic sample_env ''bogus'')"
    by (rule T[THEN conjunct2, THEN conjunct2, THEN mp, OF wh])
  show ?thesis
    by (intro conjI n1 n2 parsed dev diag run one sub)
qed

end
